theory Spec2Isabelle
  imports Complex_Main "HOL-Library.Log_Nat"
begin

section \<open>JavaScript values\<close>

text \<open>
  The service receives its input as a parsed JSON body and keeps palettes and pixel grids
  as JSON in the database, so the validators and the handlers work on untyped values.
  \<open>JUndefined\<close> stands for a field that is absent from the body. A number is the rational
  value of the double (a JSON literal that overflows to an infinity behaves, in every test
  of this program, like a finite non-integer and is not represented separately; \<open>-0\<close> is
  \<open>0\<close>). A string is a list of 8-bit characters: code units above \<open>0xFF\<close> are not
  represented, and no string accepted as a colour contains one.
\<close>

datatype json =
    JUndefined
  | JNull
  | JBool bool
  | JNum rat
  | JStr string
  | JArr "json list"
  | JObj "(string \<times> json) list"

text \<open>\<^verbatim>\<open>Number.isInteger(p)\<close>: no coercion, only a number with an integral value.\<close>

fun isInteger :: "json \<Rightarrow> bool" where
  "isInteger (JNum q) = (of_int \<lfloor>q\<rfloor> = q)"
| "isInteger _ = False"

text \<open>
  The comparisons \<^verbatim>\<open>p < 0\<close> and \<^verbatim>\<open>p >= paletteLength\<close>. Both are only reached
  behind \<^verbatim>\<open>!Number.isInteger(p) ||\<close>, that is, with a number on the left.
\<close>

fun ltZero :: "json \<Rightarrow> bool" where
  "ltZero (JNum q) = (q < 0)"
| "ltZero _ = False"

fun geNat :: "json \<Rightarrow> nat \<Rightarrow> bool" where
  "geNat (JNum q) n = (q \<ge> of_nat n)"
| "geNat _ n = False"

section \<open>Validation helpers\<close>

text \<open>The character class \<^verbatim>\<open>[0-9A-Fa-f]\<close>.\<close>

definition hexDigit :: "char \<Rightarrow> bool" where
  "hexDigit c =
     (let k = of_char c :: nat
      in (48 \<le> k \<and> k \<le> 57) \<or> (65 \<le> k \<and> k \<le> 70) \<or> (97 \<le> k \<and> k \<le> 102))"

text \<open>
  The pattern \<^verbatim>\<open>/^#[0-9A-Fa-f]{6}$/\<close> on a string. Without the multiline flag \<^verbatim>\<open>$\<close>
  matches at the end of the input only.
\<close>

definition hexColorPattern :: "string \<Rightarrow> bool" where
  "hexColorPattern s =
     (case s of
        [] \<Rightarrow> False
      | c # ds \<Rightarrow> c = CHR ''#'' \<and> length ds = 6 \<and> list_all hexDigit ds)"

text \<open>
  \<^verbatim>\<open>/^#[0-9A-Fa-f]{6}$/.test(c)\<close>. \<^verbatim>\<open>RegExp.prototype.test\<close> converts its argument
  with \<^verbatim>\<open>ToString\<close> before matching. A string is matched as it is. An array prints as
  its elements joined by commas (\<^verbatim>\<open>null\<close> printing as the empty string), so an array
  of one element prints as that element does and any longer array prints with a comma;
  the empty array prints as the empty string. Numbers, booleans, \<^verbatim>\<open>null\<close>,
  \<^verbatim>\<open>undefined\<close> and objects print as text that does not begin with \<^verbatim>\<open>#\<close>.
\<close>

fun regexTestHex :: "json \<Rightarrow> bool" where
  "regexTestHex (JStr s) = hexColorPattern s"
| "regexTestHex (JArr [x]) = regexTestHex x"
| "regexTestHex _ = False"

text \<open>
  \<^verbatim>\<open>
  function validatePalette(palette) {
    if (!Array.isArray(palette) || palette.length < 1 || palette.length > 256) {
      return false;
    }
    return palette.every(c => /^#[0-9A-Fa-f]{6}$/.test(c));
  }
  \<close>
\<close>

definition validatePalette :: "json \<Rightarrow> bool" where
  "validatePalette palette =
     (case palette of
        JArr cs \<Rightarrow>
          if length cs < 1 \<or> length cs > 256 then False
          else list_all regexTestHex cs
      | _ \<Rightarrow> False)"

text \<open>
  \<^verbatim>\<open>
  function validatePixels(pixels, size, paletteLength) {
    if (!Array.isArray(pixels) || pixels.length !== size) return false;
    for (const row of pixels) {
      if (!Array.isArray(row) || row.length !== size) return false;
      for (const p of row) {
        if (!Number.isInteger(p) || p < 0 || p >= paletteLength) return false;
      }
    }
    return true;
  }
  \<close>
  The callers pass a size that has passed the size check and the length of the palette,
  both natural numbers (\<open>sz\<close> is the source's \<^verbatim>\<open>size\<close>). The two loops are
  the two recursions, each early \<^verbatim>\<open>return false\<close> a branch.
\<close>

fun validateEntries :: "json list \<Rightarrow> nat \<Rightarrow> bool" where
  "validateEntries [] paletteLength = True"
| "validateEntries (p # ps) paletteLength =
     (if \<not> isInteger p \<or> ltZero p \<or> geNat p paletteLength then False
      else validateEntries ps paletteLength)"

fun validateRows :: "json list \<Rightarrow> nat \<Rightarrow> nat \<Rightarrow> bool" where
  "validateRows [] sz paletteLength = True"
| "validateRows (row # rows) sz paletteLength =
     (case row of
        JArr ps \<Rightarrow>
          if length ps \<noteq> sz then False
          else if validateEntries ps paletteLength then validateRows rows sz paletteLength
          else False
      | _ \<Rightarrow> False)"

definition validatePixels :: "json \<Rightarrow> nat \<Rightarrow> nat \<Rightarrow> bool" where
  "validatePixels pixels sz paletteLength =
     (case pixels of
        JArr rows \<Rightarrow>
          if length rows \<noteq> sz then False
          else validateRows rows sz paletteLength
      | _ \<Rightarrow> False)"

text \<open>
  The same rule in the words of the specification: a sequence of 1 to 256 elements, each
  of them a string made of \<^verbatim>\<open>#\<close> and six hexadecimal digits in either case.
\<close>

definition paletteSpec :: "json \<Rightarrow> bool" where
  "paletteSpec palette =
     (\<exists>cs. palette = JArr (map JStr cs) \<and> 1 \<le> length cs \<and> length cs \<le> 256
        \<and> list_all hexColorPattern cs)"

section \<open>Values read inside the handlers\<close>

text \<open>
  Truthiness, as in \<^verbatim>\<open>!author\<close>, \<^verbatim>\<open>title && ...\<close> and \<^verbatim>\<open>if (remix_of)\<close>.
\<close>

fun truthy :: "json \<Rightarrow> bool" where
  "truthy JUndefined = False"
| "truthy JNull = False"
| "truthy (JBool b) = b"
| "truthy (JNum q) = (q \<noteq> 0)"
| "truthy (JStr s) = (s \<noteq> [])"
| "truthy (JArr xs) = True"
| "truthy (JObj kvs) = True"

fun isString :: "json \<Rightarrow> bool" where
  "isString (JStr s) = True"
| "isString _ = False"

fun strLength :: "json \<Rightarrow> nat" where
  "strLength (JStr s) = length s"
| "strLength _ = 0"

text \<open>
  \<^verbatim>\<open>a !== b\<close> for two values that come from two separately parsed documents (the
  request body and a database row). Primitives are compared by type and value, strings
  character by character; two arrays or two objects are distinct objects and never equal.
\<close>

fun strictNotEqual :: "json \<Rightarrow> json \<Rightarrow> bool" where
  "strictNotEqual JUndefined JUndefined = False"
| "strictNotEqual JNull JNull = False"
| "strictNotEqual (JBool a) (JBool b) = (a \<noteq> b)"
| "strictNotEqual (JNum a) (JNum b) = (a \<noteq> b)"
| "strictNotEqual (JStr a) (JStr b) = (a \<noteq> b)"
| "strictNotEqual _ _ = True"

text \<open>
  Once both validators have accepted a submission, its palette is an array and its pixel
  grid is an array of arrays of integers. The code after the validators, and every row
  of the table (rows are written by the creation handler only), is modelled on that
  shape: a palette as the list of its elements, a grid as a list of lists of integers.
\<close>

type_synonym grid = "int list list"

fun elements :: "json \<Rightarrow> json list" where
  "elements (JArr xs) = xs"
| "elements _ = []"

fun intOf :: "json \<Rightarrow> int" where
  "intOf (JNum q) = \<lfloor>q\<rfloor>"
| "intOf _ = 0"

definition gridOf :: "json \<Rightarrow> grid" where
  "gridOf pixels = map (\<lambda>row. map intOf (elements row)) (elements pixels)"

text \<open>
  Reading \<^verbatim>\<open>g[y][x]\<close>: a missing row is \<^verbatim>\<open>undefined\<close>, and indexing
  \<^verbatim>\<open>undefined\<close> throws a \<^verbatim>\<open>TypeError\<close>; a missing column reads as
  \<^verbatim>\<open>undefined\<close> (\<open>None\<close>). Reading \<^verbatim>\<open>palette[i]\<close> with an index that is
  \<^verbatim>\<open>undefined\<close> or out of range gives \<^verbatim>\<open>undefined\<close>. The other
  exception is a database statement that fails.
\<close>

datatype exn = TypeError | QueryError

definition pixelAt :: "grid \<Rightarrow> nat \<Rightarrow> nat \<Rightarrow> exn + int option" where
  "pixelAt g y x =
     (if y < length g
      then Inr (if x < length (g ! y) then Some (g ! y ! x) else None)
      else Inl TypeError)"

definition colorAt :: "json list \<Rightarrow> int option \<Rightarrow> json" where
  "colorAt pal i =
     (case i of
        None \<Rightarrow> JUndefined
      | Some k \<Rightarrow> if 0 \<le> k \<and> k < int (length pal) then pal ! nat k else JUndefined)"

section \<open>The table and its collaborators\<close>

text \<open>
  A row of the table \<^verbatim>\<open>art\<close> (the variant with the \<^verbatim>\<open>remix_of\<close> column). A
  \<^verbatim>\<open>NULL\<close> title or parent is \<open>None\<close>; \<^verbatim>\<open>views\<close> is a 32-bit
  \<^verbatim>\<open>INTEGER\<close> that the handlers never write as \<^verbatim>\<open>NULL\<close>. The table is the
  list of its rows, in insertion order. A statement throws where the database refuses
  it: a text parameter that holds the character \<^verbatim>\<open>U+0000\<close>, the primary key on
  insertion, the range of \<^verbatim>\<open>views\<close> on update. Apart from these the
  statements are taken to succeed.
\<close>

record art =
  row_id :: string
  row_author :: string
  row_title :: "string option"
  row_size :: nat
  row_palette :: "json list"
  row_pixels :: grid
  row_created_at :: nat
  row_views :: int
  row_remix_of :: "string option"

type_synonym store = "art list"

text \<open>
  What a request takes from outside the program: the identifier that \<^verbatim>\<open>uuidv4()\<close>
  returns, the value of \<^verbatim>\<open>NOW()\<close>, the text that the database driver sends for
  a query parameter that is not a string, and the text that JavaScript makes of a value
  that is neither a string nor the empty array (\<^verbatim>\<open>String(v)\<close>).
\<close>

record env =
  uuidv4 :: string
  now :: nat
  pgText :: "json \<Rightarrow> string"
  jsText :: "json \<Rightarrow> string"

definition paramText :: "env \<Rightarrow> json \<Rightarrow> string" where
  "paramText e v = (case v of JStr s \<Rightarrow> s | _ \<Rightarrow> pgText e v)"

text \<open>The rows with a given identifier, in table order.\<close>

definition selectById :: "store \<Rightarrow> string \<Rightarrow> art list" where
  "selectById st k = filter (\<lambda>r. row_id r = k) st"

text \<open>
  PostgreSQL refuses a text parameter that holds the character \<^verbatim>\<open>U+0000\<close>: the
  query throws before it reads the table.
\<close>

definition hasNul :: "string \<Rightarrow> bool" where
  "hasNul s = (CHR 0x00 \<in> set s)"

text \<open>
  \<^verbatim>\<open>await pool.query('SELECT * FROM art WHERE id = $1', [k])\<close>: the rows, or the
  exception.
\<close>

definition queryById :: "store \<Rightarrow> string \<Rightarrow> exn + art list" where
  "queryById st k = (if hasNul k then Inl QueryError else Inr (selectById st k))"

section \<open>Creating an artwork: \<^verbatim>\<open>POST /api/art\<close>\<close>

record request =
  req_author :: json
  req_title :: json
  req_size :: json
  req_palette :: json
  req_pixels :: json
  req_remix_of :: json

datatype reject =
    InvalidAuthor
  | InvalidTitle
  | InvalidSize
  | InvalidPalette
  | InvalidPixels
  | OriginalNotFound
  | TooManyChanged nat nat
  | NoPixelsChanged

text \<open>
  The body of the comparison loop:
  \<^verbatim>\<open>
  const originalColor = originalPalette[originalPixels[y][x]];
  const newColor = palette[pixels[y][x]];
  if (originalColor !== newColor) { changedPixels++; }
  \<close>
\<close>

definition cellChanged ::
  "json list \<Rightarrow> grid \<Rightarrow> json list \<Rightarrow> grid \<Rightarrow> nat \<Rightarrow> nat \<Rightarrow> exn + bool" where
  "cellChanged originalPalette originalPixels pal pixels y x =
     (case pixelAt originalPixels y x of
        Inl ex \<Rightarrow> Inl ex
      | Inr oi \<Rightarrow>
          (case pixelAt pixels y x of
             Inl ex \<Rightarrow> Inl ex
           | Inr ni \<Rightarrow>
               Inr (strictNotEqual (colorAt originalPalette oi) (colorAt pal ni))))"

text \<open>
  \<^verbatim>\<open>for (let x = 0; x < size; x++) { ... }\<close> for one \<open>y\<close>, threading the counter.
\<close>

function countRow ::
  "json list \<Rightarrow> grid \<Rightarrow> json list \<Rightarrow> grid \<Rightarrow> nat \<Rightarrow> nat \<Rightarrow> nat \<Rightarrow> nat \<Rightarrow> exn + nat" where
  "countRow originalPalette originalPixels pal pixels sz y x changedPixels =
     (if x < sz then
        (case cellChanged originalPalette originalPixels pal pixels y x of
           Inl ex \<Rightarrow> Inl ex
         | Inr c \<Rightarrow>
             countRow originalPalette originalPixels pal pixels sz y (x + 1)
               (if c then changedPixels + 1 else changedPixels))
      else Inr changedPixels)"
  by pat_completeness auto
termination
  by (relation "measure (\<lambda>(oP, oG, nP, nG, sz, y, x, c). sz - x)") auto

text \<open>\<^verbatim>\<open>for (let y = 0; y < size; y++) { ... }\<close>\<close>

function countChanged ::
  "json list \<Rightarrow> grid \<Rightarrow> json list \<Rightarrow> grid \<Rightarrow> nat \<Rightarrow> nat \<Rightarrow> nat \<Rightarrow> exn + nat" where
  "countChanged originalPalette originalPixels pal pixels sz y changedPixels =
     (if y < sz then
        (case countRow originalPalette originalPixels pal pixels sz y 0 changedPixels of
           Inl ex \<Rightarrow> Inl ex
         | Inr c \<Rightarrow> countChanged originalPalette originalPixels pal pixels sz (y + 1) c)
      else Inr changedPixels)"
  by pat_completeness auto
termination
  by (relation "measure (\<lambda>(oP, oG, nP, nG, sz, y, c). sz - y)") auto

text \<open>\<^verbatim>\<open>Math.floor((size * size) * 0.5)\<close>, exact on the sizes that reach it.\<close>

definition maxChangesOf :: "nat \<Rightarrow> nat" where
  "maxChangesOf sz = (sz * sz) div 2"

text \<open>
  The block \<^verbatim>\<open>if (remix_of) { ... }\<close>. \<open>Inr None\<close> lets the submission through,
  \<open>Inr (Some r)\<close> is a \<^verbatim>\<open>return res.status(400)\<close>, \<open>Inl\<close> an exception thrown
  inside the block.
\<close>

definition remixCheck ::
  "env \<Rightarrow> store \<Rightarrow> json \<Rightarrow> nat \<Rightarrow> json list \<Rightarrow> grid \<Rightarrow> exn + reject option" where
  "remixCheck e st remix_of sz pal pixels =
     (if truthy remix_of then
        (case queryById st (paramText e remix_of) of
           Inl ex \<Rightarrow> Inl ex
         | Inr [] \<Rightarrow> Inr (Some OriginalNotFound)
         | Inr (originalRow # _) \<Rightarrow>
             (let maxChanges = maxChangesOf sz
              in case countChanged (row_palette originalRow) (row_pixels originalRow)
                        pal pixels sz 0 0 of
                   Inl ex \<Rightarrow> Inl ex
                 | Inr changedPixels \<Rightarrow>
                     if changedPixels > maxChanges
                     then Inr (Some (TooManyChanged maxChanges changedPixels))
                     else if changedPixels = 0 then Inr (Some NoPixelsChanged)
                     else Inr None))
      else Inr None)"

text \<open>The body of \<^verbatim>\<open>GET /api/art/:id\<close>.\<close>

record art_view =
  v_id :: string
  v_author :: string
  v_title :: "string option"
  v_size :: nat
  v_palette :: "json list"
  v_pixels :: grid
  v_created_at :: nat
  v_views :: int
  v_remix_of :: "string option"
  v_original :: "(string \<times> string \<times> string option) option"
  v_remixes :: "(string \<times> string \<times> string option) list"

text \<open>
  A response: \<^verbatim>\<open>201\<close> with the new identifier and \<^verbatim>\<open>remix_of || null\<close>,
  \<^verbatim>\<open>400\<close> with the reason, \<^verbatim>\<open>404\<close>, \<^verbatim>\<open>500\<close> from the
  \<^verbatim>\<open>catch\<close> block, \<^verbatim>\<open>200\<close> with an artwork.
\<close>

datatype response =
    Status201 string json
  | Status400 reject
  | Status404
  | Status500
  | Status200 art_view

definition orNull :: "json \<Rightarrow> json" where
  "orNull v = (if truthy v then v else JNull)"

definition textOf :: "json \<Rightarrow> string" where
  "textOf v = (case v of JStr s \<Rightarrow> s | _ \<Rightarrow> [])"

text \<open>
  \<^verbatim>\<open>INSERT INTO art (id, author, title, size, palette, pixels, remix_of)\<close>: the
  statement throws when one of its text parameters (\<^verbatim>\<open>id\<close>, \<^verbatim>\<open>author\<close>,
  \<^verbatim>\<open>title || null\<close>, \<^verbatim>\<open>remix_of || null\<close>) holds \<^verbatim>\<open>U+0000\<close>, and when
  the primary key finds the identifier already in the table; \<^verbatim>\<open>created_at\<close> and
  \<^verbatim>\<open>views\<close> take their defaults. The palette and the grid are sent as JSON text
  of colour strings and integers.
\<close>

definition insertRefused :: "env \<Rightarrow> request \<Rightarrow> bool" where
  "insertRefused e req \<longleftrightarrow>
     hasNul (uuidv4 e) \<or> hasNul (textOf (req_author req))
     \<or> (truthy (req_title req) \<and> hasNul (textOf (req_title req)))
     \<or> (truthy (req_remix_of req) \<and> hasNul (paramText e (req_remix_of req)))"

definition insertArt :: "env \<Rightarrow> store \<Rightarrow> request \<Rightarrow> exn + store" where
  "insertArt e st req =
     (if insertRefused e req \<or> list_ex (\<lambda>r. row_id r = uuidv4 e) st then Inl QueryError
      else Inr (st @
        [\<lparr> row_id = uuidv4 e,
           row_author = textOf (req_author req),
           row_title = (if truthy (req_title req) then Some (textOf (req_title req)) else None),
           row_size = 32,
           row_palette = elements (req_palette req),
           row_pixels = gridOf (req_pixels req),
           row_created_at = now e,
           row_views = 0,
           row_remix_of =
             (if truthy (req_remix_of req) then Some (paramText e (req_remix_of req))
              else None) \<rparr>]))"

text \<open>
  The five checks that open the handler, in order, each an early
  \<^verbatim>\<open>return res.status(400)\<close>:
  \<^verbatim>\<open>
  if (!author || typeof author !== 'string' || author.length > 64) ...
  if (title && (typeof title !== 'string' || title.length > 128)) ...
  if (size !== 32) ...
  if (!validatePalette(palette)) ...
  if (!validatePixels(pixels, size, palette.length)) ...
  \<close>
\<close>

definition structuralCheck :: "request \<Rightarrow> reject option" where
  "structuralCheck req =
     (if \<not> truthy (req_author req) \<or> \<not> isString (req_author req)
          \<or> strLength (req_author req) > 64
      then Some InvalidAuthor
      else if truthy (req_title req)
          \<and> (\<not> isString (req_title req) \<or> strLength (req_title req) > 128)
      then Some InvalidTitle
      else if req_size req \<noteq> JNum 32 then Some InvalidSize
      else if \<not> validatePalette (req_palette req) then Some InvalidPalette
      else if \<not> validatePixels (req_pixels req) 32 (length (elements (req_palette req)))
      then Some InvalidPixels
      else None)"

text \<open>
  The handler: the structural checks, the remix block, the insertion. Every exception
  is caught by the handler's \<^verbatim>\<open>catch\<close> and answered with \<^verbatim>\<open>500\<close>.
\<close>

definition postArt :: "env \<Rightarrow> store \<Rightarrow> request \<Rightarrow> response \<times> store" where
  "postArt e st req =
     (case structuralCheck req of
        Some r \<Rightarrow> (Status400 r, st)
      | None \<Rightarrow>
          (case remixCheck e st (req_remix_of req) 32
                  (elements (req_palette req)) (gridOf (req_pixels req)) of
             Inl ex \<Rightarrow> (Status500, st)
           | Inr (Some r) \<Rightarrow> (Status400 r, st)
           | Inr None \<Rightarrow>
               (case insertArt e st req of
                  Inl ex \<Rightarrow> (Status500, st)
                | Inr st' \<Rightarrow> (Status201 (uuidv4 e) (orNull (req_remix_of req)), st'))))"

section \<open>Fetching an artwork: \<^verbatim>\<open>GET /api/art/:id\<close>\<close>

text \<open>
  \<^verbatim>\<open>UPDATE art SET views = views + 1 WHERE id = $1\<close>. The column is a 32-bit
  integer: the statement fails, and changes nothing, when a row it touches is at the
  largest value.
\<close>

definition int4Max :: int where
  "int4Max = 2147483647"

definition incrementViews :: "store \<Rightarrow> string \<Rightarrow> exn + store" where
  "incrementViews st k =
     (if list_ex (\<lambda>r. row_id r = k \<and> int4Max < row_views r + 1) st then Inl QueryError
      else Inr (map (\<lambda>r. if row_id r = k then r\<lparr>row_views := row_views r + 1\<rparr> else r) st))"

definition summary :: "art \<Rightarrow> string \<times> string \<times> string option" where
  "summary r = (row_id r, row_author r, row_title r)"

text \<open>\<^verbatim>\<open>row.remix_of || null\<close> and \<^verbatim>\<open>if (row.remix_of)\<close> on a nullable text.\<close>

definition textOrNull :: "string option \<Rightarrow> string option" where
  "textOrNull t = (case t of None \<Rightarrow> None | Some u \<Rightarrow> if u = [] then None else Some u)"

text \<open>
  The handler. The update and the two further queries follow the first query without a
  transaction: an exception in a later query answers \<^verbatim>\<open>500\<close> with the counter
  already raised. The order of \<^verbatim>\<open>ORDER BY created_at DESC\<close> among rows of equal
  time is the database's choice and is taken here as the reverse of a stable sort.
\<close>

definition getArt :: "store \<Rightarrow> string \<Rightarrow> response \<times> store" where
  "getArt st k =
     (case queryById st k of
        Inl ex \<Rightarrow> (Status500, st)
      | Inr [] \<Rightarrow> (Status404, st)
      | Inr (row # _) \<Rightarrow>
          (case incrementViews st k of
             Inl ex \<Rightarrow> (Status500, st)
           | Inr st' \<Rightarrow>
               (case (case textOrNull (row_remix_of row) of
                        None \<Rightarrow> Inr None
                      | Some parent \<Rightarrow>
                          (case queryById st' parent of
                             Inl ex \<Rightarrow> Inl ex
                           | Inr [] \<Rightarrow> Inr None
                           | Inr (origRow # _) \<Rightarrow> Inr (Some (summary origRow)))) of
                  Inl ex \<Rightarrow> (Status500, st')
                | Inr original \<Rightarrow>
                    (let remixes =
                           map summary (take 10 (rev (sort_key row_created_at
                             (filter (\<lambda>r. row_remix_of r = Some (row_id row)) st'))))
                     in (Status200
                           \<lparr> v_id = row_id row,
                              v_author = row_author row,
                              v_title = row_title row,
                              v_size = row_size row,
                              v_palette = row_palette row,
                              v_pixels = row_pixels row,
                              v_created_at = row_created_at row,
                              v_views = row_views row + 1,
                              v_remix_of = textOrNull (row_remix_of row),
                              v_original = original,
                              v_remixes = remixes \<rparr>,
                         st')))))"

section \<open>Double-precision arithmetic\<close>

text \<open>
  JavaScript numbers are IEEE 754 doubles. Sums and products of small integers are exact;
  a division or a product with a fractional operand is rounded to the nearest double,
  ties to the even significand. \<open>roundDouble\<close> is that rounding on the rationals, with
  53 significant bits. The exponent range is not modelled: every quantity rounded below
  lies between \<open>2\<^sup>-\<^sup>1\<^sup>0\<close> and \<open>2\<^sup>1\<^sup>0\<close> in magnitude, or is zero.
\<close>

definition roundHalfEven :: "rat \<Rightarrow> int" where
  "roundHalfEven x =
     (let f = \<lfloor>x\<rfloor>; d = x - of_int f
      in if d < 1 / 2 then f else if 1 / 2 < d then f + 1 else if even f then f else f + 1)"

text \<open>The exponent \<open>e\<close> with \<open>2\<^sup>e \<le> \<bar>x\<bar> < 2\<^sup>e\<^sup>+\<^sup>1\<close>, for \<open>x \<noteq> 0\<close>.\<close>

definition binaryExponent :: "rat \<Rightarrow> int" where
  "binaryExponent x =
     (let (p, q) = quotient_of \<bar>x\<bar>; d = bitlen p - bitlen q
      in if 2 powi d \<le> \<bar>x\<bar> then d else d - 1)"

definition roundDouble :: "rat \<Rightarrow> rat" where
  "roundDouble x =
     (if x = 0 then 0
      else let u = 2 powi (binaryExponent x - 52)
           in of_int (roundHalfEven (x / u)) * u)"

section \<open>The ASCII view: \<^verbatim>\<open>GET /api/art/:id/ascii\<close>\<close>

text \<open>
  The transform is written first on a palette whose entries are strings and a grid of
  integers, the shape that the specification's validator promises; the handler that
  reads the stored row follows.
\<close>

definition chars :: string where
  "chars = '' .:-=+*#%@''"

definition newline :: char where
  "newline = CHR 0x0A"

text \<open>\<^verbatim>\<open>s.slice(a, b)\<close> for \<open>0 \<le> a \<le> b\<close>, of a string or of an array.\<close>

definition slice :: "nat \<Rightarrow> nat \<Rightarrow> 'a list \<Rightarrow> 'a list" where
  "slice a b s = take (b - a) (drop a s)"

definition digitValue :: "char \<Rightarrow> nat option" where
  "digitValue c =
     (let k = of_char c :: nat
      in if 48 \<le> k \<and> k \<le> 57 then Some (k - 48)
         else if 65 \<le> k \<and> k \<le> 70 then Some (k - 55)
         else if 97 \<le> k \<and> k \<le> 102 then Some (k - 87)
         else None)"

definition isWhiteSpace :: "char \<Rightarrow> bool" where
  "isWhiteSpace c = (of_char c \<in> {9, 10, 11, 12, 13, 32, 160 :: nat})"

fun hexPrefix :: "string \<Rightarrow> nat list" where
  "hexPrefix [] = []"
| "hexPrefix (c # cs) = (case digitValue c of None \<Rightarrow> [] | Some d \<Rightarrow> d # hexPrefix cs)"

text \<open>
  \<^verbatim>\<open>parseInt(s, 16)\<close>: leading white space is skipped, then a sign, then a
  \<^verbatim>\<open>0x\<close> prefix; the longest run of hexadecimal digits that follows is the
  value, and \<^verbatim>\<open>NaN\<close> (\<open>None\<close>) when that run is empty.
\<close>

definition parseInt16 :: "string \<Rightarrow> int option" where
  "parseInt16 s =
     (let t = dropWhile isWhiteSpace s;
          sign = (case t of c # r \<Rightarrow> if c = CHR ''-'' then - 1 else 1 | [] \<Rightarrow> (1 :: int));
          u = (case t of c # r \<Rightarrow> if c = CHR ''-'' \<or> c = CHR ''+'' then r else t | [] \<Rightarrow> t);
          v = (case u of
                 a # b # r \<Rightarrow>
                   if a = CHR ''0'' \<and> (b = CHR ''x'' \<or> b = CHR ''X'') then r else u
               | _ \<Rightarrow> u);
          ds = hexPrefix v
      in if ds = [] then None
         else Some (sign * int (foldl (\<lambda>acc d. 16 * acc + d) 0 ds)))"

text \<open>
  \<^verbatim>\<open>
  const brightness = palette.map(hex => {
    const r = parseInt(hex.slice(1, 3), 16);
    const g = parseInt(hex.slice(3, 5), 16);
    const b = parseInt(hex.slice(5, 7), 16);
    return (r + g + b) / (3 * 255);
  });
  \<close>
  \<open>None\<close> is \<^verbatim>\<open>NaN\<close>.
\<close>

definition brightnessOf :: "string \<Rightarrow> rat option" where
  "brightnessOf hex =
     (case parseInt16 (slice 1 3 hex) of
        None \<Rightarrow> None
      | Some r \<Rightarrow>
          (case parseInt16 (slice 3 5 hex) of
             None \<Rightarrow> None
           | Some g \<Rightarrow>
               (case parseInt16 (slice 5 7 hex) of
                  None \<Rightarrow> None
                | Some b \<Rightarrow> Some (roundDouble (of_int (r + g + b) / (3 * 255))))))"

text \<open>
  \<^verbatim>\<open>chars[Math.floor(brightness[p] * (chars.length - 1))]\<close>, as the text that
  \<^verbatim>\<open>join('')\<close> makes of it: a missing brightness, a \<^verbatim>\<open>NaN\<close> or an index
  outside the ramp gives \<^verbatim>\<open>undefined\<close>, which joins as the empty string.
\<close>

definition asciiChar :: "rat option list \<Rightarrow> int \<Rightarrow> string" where
  "asciiChar brightness p =
     (if 0 \<le> p \<and> p < int (length brightness) then
        (case brightness ! nat p of
           None \<Rightarrow> []
         | Some b \<Rightarrow>
             (let i = \<lfloor>roundDouble (b * (of_nat (length chars) - 1))\<rfloor>
              in if 0 \<le> i \<and> i < int (length chars) then [chars ! nat i] else []))
      else [])"

text \<open>\<^verbatim>\<open>lines.join(sep)\<close>\<close>

fun joinWith :: "string \<Rightarrow> string list \<Rightarrow> string" where
  "joinWith sep [] = []"
| "joinWith sep [l] = l"
| "joinWith sep (l # m # ls) = l @ sep @ joinWith sep (m # ls)"

text \<open>
  \<^verbatim>\<open>
  const ascii = pixels.map(row =>
    row.map(p => chars[Math.floor(brightness[p] * (chars.length - 1))]).join('')
  ).join('\n');
  \<close>
\<close>

definition asciiRow :: "rat option list \<Rightarrow> int list \<Rightarrow> string" where
  "asciiRow brightness row = concat (map (asciiChar brightness) row)"

definition asciiArt :: "string list \<Rightarrow> grid \<Rightarrow> string" where
  "asciiArt pal pixels =
     joinWith [newline] (map (asciiRow (map brightnessOf pal)) pixels)"

text \<open>
  The text that \<^verbatim>\<open>parseInt\<close> reads when it is handed a value: a string is its own
  text and the empty array has the empty text.
\<close>

definition toText :: "env \<Rightarrow> json \<Rightarrow> string" where
  "toText e v = (case v of JStr s \<Rightarrow> s | JArr [] \<Rightarrow> [] | _ \<Rightarrow> jsText e v)"

text \<open>
  The brightness of an entry of the stored palette. A string is sliced and parsed as
  above. An array has a \<^verbatim>\<open>slice\<close> of its own, which gives the array of the members
  at those positions, and \<^verbatim>\<open>parseInt\<close> reads the text of that array; a sum with a
  \<^verbatim>\<open>NaN\<close> in it is \<^verbatim>\<open>NaN\<close>. On any other value \<^verbatim>\<open>hex.slice(1, 3)\<close>
  throws a \<^verbatim>\<open>TypeError\<close>.
\<close>

definition entryBrightness :: "env \<Rightarrow> json \<Rightarrow> exn + rat option" where
  "entryBrightness e hex =
     (case hex of
        JStr s \<Rightarrow> Inr (brightnessOf s)
      | JArr xs \<Rightarrow>
          Inr (case parseInt16 (toText e (JArr (slice 1 3 xs))) of
                 None \<Rightarrow> None
               | Some r \<Rightarrow>
                   (case parseInt16 (toText e (JArr (slice 3 5 xs))) of
                      None \<Rightarrow> None
                    | Some g \<Rightarrow>
                        (case parseInt16 (toText e (JArr (slice 5 7 xs))) of
                           None \<Rightarrow> None
                         | Some b \<Rightarrow> Some (roundDouble (of_int (r + g + b) / (3 * 255))))))
      | _ \<Rightarrow> Inl TypeError)"

text \<open>\<^verbatim>\<open>palette.map(hex => ...)\<close>: the first exception ends the loop.\<close>

fun brightnessList :: "env \<Rightarrow> json list \<Rightarrow> exn + rat option list" where
  "brightnessList e [] = Inr []"
| "brightnessList e (hex # rest) =
     (case entryBrightness e hex of
        Inl ex \<Rightarrow> Inl ex
      | Inr b \<Rightarrow>
          (case brightnessList e rest of
             Inl ex \<Rightarrow> Inl ex
           | Inr bs \<Rightarrow> Inr (b # bs)))"

text \<open>
  The handler, in the variant that keeps the table in PostgreSQL: it reads the row and
  changes nothing; an exception anywhere in it is answered with status 500. The variants
  that keep the table in SQLite read the row in their own way and then make the text
  with the same two \<^verbatim>\<open>map\<close> calls.
  \<^verbatim>\<open>
  const result = await pool.query('SELECT * FROM art WHERE id = $1', [req.params.id]);
  if (result.rows.length === 0) { return res.status(404).json(...); }
  const row = result.rows[0];
  ...
  res.type('text/plain').send(ascii);
  \<close>
\<close>

datatype text_response = Text200 string | Text404 | Text500

definition getAscii :: "env \<Rightarrow> store \<Rightarrow> string \<Rightarrow> text_response \<times> store" where
  "getAscii e st k =
     (case queryById st k of
        Inl ex \<Rightarrow> (Text500, st)
      | Inr [] \<Rightarrow> (Text404, st)
      | Inr (row # _) \<Rightarrow>
          (case brightnessList e (row_palette row) of
             Inl ex \<Rightarrow> (Text500, st)
           | Inr brightness \<Rightarrow>
               (Text200 (joinWith [newline] (map (asciiRow brightness) (row_pixels row))),
                st)))"

text \<open>
  The formula of the specification, in exact arithmetic: the brightness of a colour from
  its three decoded channels, and the ramp index of a brightness.
\<close>

definition channelValue :: "string \<Rightarrow> nat" where
  "channelValue s =
     foldl (\<lambda>acc c. 16 * acc + (case digitValue c of None \<Rightarrow> 0 | Some d \<Rightarrow> d)) 0 s"

definition channels :: "string \<Rightarrow> nat \<times> nat \<times> nat" where
  "channels hex =
     (channelValue (slice 1 3 hex), channelValue (slice 3 5 hex), channelValue (slice 5 7 hex))"

definition specBrightness :: "string \<Rightarrow> rat" where
  "specBrightness hex = (case channels hex of (r, g, b) \<Rightarrow> of_nat (r + g + b) / (3 * 255))"

definition specRampIndex :: "string \<Rightarrow> nat" where
  "specRampIndex hex = nat \<lfloor>specBrightness hex * (of_nat (length chars) - 1)\<rfloor>"

text \<open>
  The lines of a text, as a reader of the answer sees them: the pieces between line
  feeds.
\<close>

fun splitLines :: "string \<Rightarrow> string list" where
  "splitLines [] = [[]]"
| "splitLines (c # cs) =
     (if c = CHR 0x0A then [] # splitLines cs
      else (case splitLines cs of
              [] \<Rightarrow> [[c]]
            | l # ls \<Rightarrow> (c # l) # ls))"

section \<open>The SVG image: \<^verbatim>\<open>GET /art/:id/image\<close>\<close>

text \<open>The decimal text of a natural number, as a template literal prints it.\<close>

fun showNat :: "nat \<Rightarrow> string" where
  "showNat n =
     (if n < 10 then [char_of (48 + n)]
      else showNat (n div 10) @ [char_of (48 + n mod 10)])"

text \<open>
  \<^verbatim>\<open>Math.max(1, Math.floor(512 / size))\<close> and \<^verbatim>\<open>size * scale\<close>. For a positive
  integer size the floor of the double quotient is the integer quotient (exactly so for
  the sizes the creation handlers admit, which are powers of two).
\<close>

definition svgScale :: "nat \<Rightarrow> nat" where
  "svgScale sz = max 1 (512 div sz)"

definition canvasSize :: "nat \<Rightarrow> nat" where
  "canvasSize sz = sz * svgScale sz"

text \<open>A rectangle of the image, and the element that the template prints for it.\<close>

record rect =
  rect_x :: nat
  rect_y :: nat
  rect_width :: nat
  rect_height :: nat
  rect_fill :: string

definition rectText :: "rect \<Rightarrow> string" where
  \<open>rectText r =
     ''<rect x="'' @ showNat (rect_x r) @ ''" y="'' @ showNat (rect_y r)
       @ ''" width="'' @ showNat (rect_width r) @ ''" height="'' @ showNat (rect_height r)
       @ ''" fill="'' @ rect_fill r @ ''"/>''\<close>

text \<open>
  \<^verbatim>\<open>const color = palette[pixels[y][x]]\<close>, as the template prints it: a missing
  entry prints as \<^verbatim>\<open>undefined\<close>.
\<close>

definition fillOf :: "string list \<Rightarrow> int option \<Rightarrow> string" where
  "fillOf pal i =
     (case i of
        None \<Rightarrow> ''undefined''
      | Some k \<Rightarrow> if 0 \<le> k \<and> k < int (length pal) then pal ! nat k else ''undefined'')"

definition pixelRect :: "string list \<Rightarrow> nat \<Rightarrow> nat \<Rightarrow> nat \<Rightarrow> int option \<Rightarrow> rect" where
  "pixelRect pal scale y x i =
     \<lparr> rect_x = x * scale, rect_y = y * scale, rect_width = scale, rect_height = scale,
        rect_fill = fillOf pal i \<rparr>"

text \<open>
  \<^verbatim>\<open>
  let rects = '';
  for (let y = 0; y < size; y++) {
    for (let x = 0; x < size; x++) {
      const color = palette[pixels[y][x]];
      rects += `<rect x="${x * scale}" y="${y * scale}" width="${scale}" ... />`;
    }
  }
  \<close>
\<close>

function rectsRow ::
  "string list \<Rightarrow> grid \<Rightarrow> nat \<Rightarrow> nat \<Rightarrow> nat \<Rightarrow> nat \<Rightarrow> string \<Rightarrow> exn + string" where
  "rectsRow pal pixels sz scale y x rects =
     (if x < sz then
        (case pixelAt pixels y x of
           Inl ex \<Rightarrow> Inl ex
         | Inr i \<Rightarrow>
             rectsRow pal pixels sz scale y (x + 1)
               (rects @ rectText (pixelRect pal scale y x i)))
      else Inr rects)"
  by pat_completeness auto
termination
  by (relation "measure (\<lambda>(pal, pixels, sz, scale, y, x, rects). sz - x)") auto

function rectsLoop ::
  "string list \<Rightarrow> grid \<Rightarrow> nat \<Rightarrow> nat \<Rightarrow> nat \<Rightarrow> string \<Rightarrow> exn + string" where
  "rectsLoop pal pixels sz scale y rects =
     (if y < sz then
        (case rectsRow pal pixels sz scale y 0 rects of
           Inl ex \<Rightarrow> Inl ex
         | Inr rects' \<Rightarrow> rectsLoop pal pixels sz scale (y + 1) rects')
      else Inr rects)"
  by pat_completeness auto
termination
  by (relation "measure (\<lambda>(pal, pixels, sz, scale, y, rects). sz - y)") auto

text \<open>
  The document. A size of zero cannot be stored; the source would print
  \<^verbatim>\<open>NaN\<close> for its canvas.
\<close>

definition canvasText :: "nat \<Rightarrow> string" where
  "canvasText sz = (if sz = 0 then ''NaN'' else showNat (canvasSize sz))"

definition titleOf :: "string option \<Rightarrow> string" where
  "titleOf t = (case t of None \<Rightarrow> ''Untitled'' | Some u \<Rightarrow> if u = [] then ''Untitled'' else u)"

definition svgWrap :: "string \<Rightarrow> string \<Rightarrow> string \<Rightarrow> string \<Rightarrow> string" where
  \<open>svgWrap canvas t a rects =
     ''<?xml version="1.0" encoding="UTF-8"?>'' @ [newline]
     @ ''<svg xmlns="http://www.w3.org/2000/svg" width="'' @ canvas
     @ ''" height="'' @ canvas @ ''" viewBox="0 0 '' @ canvas @ '' '' @ canvas @ ''">''
     @ [newline] @ ''  <title>'' @ t @ '' by '' @ a @ ''</title>'' @ [newline]
     @ ''  '' @ rects @ [newline] @ ''</svg>''\<close>

definition svgImage ::
  "string option \<Rightarrow> string \<Rightarrow> nat \<Rightarrow> string list \<Rightarrow> grid \<Rightarrow> exn + string" where
  "svgImage t a sz pal pixels =
     (case rectsLoop pal pixels sz (svgScale sz) 0 [] of
        Inl ex \<Rightarrow> Inl ex
      | Inr rects \<Rightarrow> Inr (svgWrap (canvasText sz) (titleOf t) a rects))"

text \<open>
  The rectangles the specification lists: one for each pixel, rows from the top, columns
  from the left.
\<close>

definition svgRects :: "string list \<Rightarrow> grid \<Rightarrow> nat \<Rightarrow> rect list" where
  "svgRects pal pixels sz =
     concat (map (\<lambda>y. map (\<lambda>x. pixelRect pal (svgScale sz) y x (Some (pixels ! y ! x)))
                        [0..<sz]) [0..<sz])"

text \<open>The number that a decimal numeral denotes.\<close>

definition decimalValue :: "string \<Rightarrow> nat" where
  "decimalValue ds = foldl (\<lambda>acc c. 10 * acc + (of_char c - 48)) 0 ds"

definition covers :: "rect \<Rightarrow> nat \<times> nat \<Rightarrow> bool" where
  "covers r pt =
     (rect_x r \<le> fst pt \<and> fst pt < rect_x r + rect_width r
      \<and> rect_y r \<le> snd pt \<and> snd pt < rect_y r + rect_height r)"

section \<open>Validated artworks\<close>

text \<open>
  An artwork as the renderers take it, written back as the JSON the validators check: it
  is validated when both validators accept it for its size.
\<close>

definition paletteJson :: "string list \<Rightarrow> json" where
  "paletteJson pal = JArr (map JStr pal)"

definition gridJson :: "grid \<Rightarrow> json" where
  "gridJson pixels = JArr (map (\<lambda>row. JArr (map (\<lambda>p. JNum (of_int p)) row)) pixels)"

definition validArtwork :: "nat \<Rightarrow> string list \<Rightarrow> grid \<Rightarrow> bool" where
  "validArtwork sz pal pixels \<longleftrightarrow>
     validatePalette (paletteJson pal) \<and> validatePixels (gridJson pixels) sz (length pal)"

section \<open>Rows that the creation handler writes\<close>

text \<open>
  The shape of a row that has passed both validators on its way into the table: size
  32, a grid of 32 rows of 32 indices into its palette, a palette of 1 to 256 entries
  that pass the colour test.
\<close>

definition wellFormedRow :: "art \<Rightarrow> bool" where
  "wellFormedRow r \<longleftrightarrow>
     row_size r = 32 \<and> length (row_pixels r) = 32
     \<and> (\<forall>row \<in> set (row_pixels r). length row = 32
           \<and> (\<forall>p \<in> set row. 0 \<le> p \<and> p < int (length (row_palette r))))
     \<and> 1 \<le> length (row_palette r) \<and> length (row_palette r) \<le> 256
     \<and> list_all regexTestHex (row_palette r)"

section \<open>Example values\<close>

text \<open>
  A two-colour palette, an all-black 32\<times>32 artwork stored under the identifier
  \<open>orig\<close>, and a remix of it that repaints the upper half: 512 of its 1024 cells.
\<close>

definition env0 :: env where
  "env0 = \<lparr> uuidv4 = ''new'', now = 1, pgText = (\<lambda>v. []), jsText = (\<lambda>v. []) \<rparr>"

definition blankRow :: art where
  "blankRow =
     \<lparr> row_id = ''orig'', row_author = ''ann'', row_title = None, row_size = 32,
        row_palette = [JStr ''#000000'', JStr ''#FFFFFF''],
        row_pixels = replicate 32 (replicate 32 0),
        row_created_at = 0, row_views = 0, row_remix_of = None \<rparr>"

definition halfRequest :: request where
  "halfRequest =
     \<lparr> req_author = JStr ''bob'', req_title = JUndefined, req_size = JNum 32,
        req_palette = JArr [JStr ''#000000'', JStr ''#FFFFFF''],
        req_pixels = JArr (replicate 16 (JArr (replicate 32 (JNum 1)))
                           @ replicate 16 (JArr (replicate 32 (JNum 0)))),
        req_remix_of = JStr ''orig'' \<rparr>"

text \<open>A stored artwork of two colours on a 2\<times>2 grid.\<close>

definition tinyRow :: art where
  "tinyRow =
     \<lparr> row_id = ''tiny'', row_author = ''ann'', row_title = None, row_size = 2,
        row_palette = [JStr ''#000000'', JStr ''#FFFFFF''],
        row_pixels = [[0, 1], [1, 0]],
        row_created_at = 0, row_views = 3, row_remix_of = None \<rparr>"



section \<open>Properties of the validators\<close>

lemma validateEntries_iff:
  "validateEntries ps n \<longleftrightarrow>
     (\<forall>p \<in> set ps. \<exists>i::int. p = JNum (of_int i) \<and> 0 \<le> i \<and> i < int n)"
proof (induction ps)
  case Nil
  then show ?case by simp
next
  case (Cons p ps)
  have "(isInteger p \<and> \<not> ltZero p \<and> \<not> geNat p n) \<longleftrightarrow>
        (\<exists>i::int. p = JNum (of_int i) \<and> 0 \<le> i \<and> i < int n)"
  proof (cases p)
    case (JNum q)
    show ?thesis
    proof
      assume a: "isInteger p \<and> \<not> ltZero p \<and> \<not> geNat p n"
      then have "q = of_int \<lfloor>q\<rfloor>" using JNum by auto
      moreover have "0 \<le> \<lfloor>q\<rfloor>" using a JNum by simp
      moreover have "\<lfloor>q\<rfloor> < int n" using a JNum by (simp add: floor_less_iff)
      ultimately show "\<exists>i::int. p = JNum (of_int i) \<and> 0 \<le> i \<and> i < int n"
        using JNum by blast
    next
      assume "\<exists>i::int. p = JNum (of_int i) \<and> 0 \<le> i \<and> i < int n"
      then obtain i :: int where "q = of_int i" "0 \<le> i" "i < int n" using JNum by auto
      then show "isInteger p \<and> \<not> ltZero p \<and> \<not> geNat p n"
        using JNum by (simp add: not_le)
    qed
  qed auto
  with Cons show ?case by auto
qed

lemma validateRows_iff:
  "validateRows rows sz n \<longleftrightarrow>
     (\<forall>row \<in> set rows. \<exists>ps. row = JArr ps \<and> length ps = sz \<and> validateEntries ps n)"
  by (induction rows) (auto split: json.splits)

lemma validatePixels_shape:
  "validatePixels pixels sz n \<longleftrightarrow>
     (\<exists>rows. pixels = JArr rows \<and> length rows = sz \<and>
        (\<forall>row \<in> set rows. \<exists>ps. row = JArr ps \<and> length ps = sz \<and>
           (\<forall>p \<in> set ps. \<exists>i::int. p = JNum (of_int i) \<and> 0 \<le> i \<and> i < int n)))"
  by (cases pixels) (simp_all add: validatePixels_def validateRows_iff validateEntries_iff)

text \<open>
  C4. \<open>validatePixels\<close> accepts a grid exactly when it is an array of \<open>sz\<close> rows, every
  row an array of \<open>sz\<close> entries, and every entry an integer \<open>i\<close> with
  \<open>0 \<le> i < paletteLength\<close>. Anything else is refused as a whole.
\<close>

theorem validatePixels_iff:
  "validatePixels pixels sz n \<longleftrightarrow>
     (\<exists>rows. pixels = JArr rows \<and> length rows = sz \<and>
        (\<forall>row \<in> set rows. \<exists>ps. row = JArr ps \<and> length ps = sz \<and>
           (\<forall>p \<in> set ps. \<exists>i::int. p = JNum (of_int i) \<and> 0 \<le> i \<and> i < int n)))"
  by (rule validatePixels_shape)

theorem validatePixels_iff_witness:
  "validatePixels (JArr [JArr [JNum 0, JNum 1], JArr [JNum 1, JNum 0]]) 2 2 \<and>
   (\<exists>rows. JArr [JArr [JNum 0, JNum 1], JArr [JNum 1, JNum 0]] = JArr rows \<and> length rows = 2 \<and>
      (\<forall>row \<in> set rows. \<exists>ps. row = JArr ps \<and> length ps = 2 \<and>
         (\<forall>p \<in> set ps. \<exists>i::int. p = JNum (of_int i) \<and> 0 \<le> i \<and> i < int 2)))"
proof -
  have "validatePixels (JArr [JArr [JNum 0, JNum 1], JArr [JNum 1, JNum 0]]) 2 2"
    by (simp add: validatePixels_def)
  then show ?thesis
    using validatePixels_iff [of "JArr [JArr [JNum 0, JNum 1], JArr [JNum 1, JNum 0]]" 2 2]
    by blast
qed

text \<open>
  The refusals named with C4: a row short, a column too many, an index equal to the
  length of the palette, an entry that is not an integer.
\<close>

lemma validatePixels_refusals:
  "\<not> validatePixels (JArr [JArr [JNum 0, JNum 1]]) 2 2"
  "\<not> validatePixels (JArr [JArr [JNum 0, JNum 1, JNum 0], JArr [JNum 1, JNum 0]]) 2 2"
  "\<not> validatePixels (JArr [JArr [JNum 0, JNum 2], JArr [JNum 1, JNum 0]]) 2 2"
  "\<not> validatePixels (JArr [JArr [JNum 0, JNum (1 / 2)], JArr [JNum 1, JNum 0]]) 2 2"
  "\<not> validatePixels (JArr [JArr [JNum 0, JStr ''1''], JArr [JNum 1, JNum 0]]) 2 2"
  by code_simp+

text \<open>
  On palettes whose elements are strings, \<open>validatePalette\<close> is the rule of the
  specification, and whatever the specification accepts the code accepts.
\<close>

lemma validatePalette_strings:
  "validatePalette (JArr (map JStr cs)) \<longleftrightarrow>
     1 \<le> length cs \<and> length cs \<le> 256 \<and> list_all hexColorPattern cs"
  by (cases cs) (auto simp: validatePalette_def list_all_iff)

lemma paletteSpec_accepted: "paletteSpec palette \<Longrightarrow> validatePalette palette"
  by (auto simp: paletteSpec_def validatePalette_strings)

lemma validatePalette_refusals:
  "\<not> validatePalette (JArr [])"
  "\<not> validatePalette (JArr (replicate 257 (JStr ''#000000'')))"
  "\<not> validatePalette (JArr [JStr ''#000000'', JStr ''#GGGGGG''])"
  "\<not> validatePalette (JStr ''#000000'')"
  by (simp_all add: validatePalette_def hexColorPattern_def hexDigit_def)

lemma validatePalette_mixed_case:
  "validatePalette (JArr [JStr ''#00ff1a'', JStr ''#AABBCC'', JStr ''#aAbBcC''])"
  by (simp add: validatePalette_def hexColorPattern_def hexDigit_def)

text \<open>
  C3. The code accepts a palette that the stated rule refuses: an element that is a
  one-element array holding a colour string is converted to that string by the regular
  expression test, so the palette \<^verbatim>\<open>[["#AABBCC"]]\<close> passes although its element is
  not a string of \<^verbatim>\<open>#\<close> and six hexadecimal digits.
\<close>

theorem validatePalette_accepts_nested_array:
  "validatePalette (JArr [JArr [JStr ''#AABBCC'']]) \<and>
   \<not> paletteSpec (JArr [JArr [JStr ''#AABBCC'']])"
  by (auto simp: validatePalette_def hexColorPattern_def hexDigit_def paletteSpec_def)

section \<open>Properties of the creation handler\<close>

lemma structuralCheck_remix_of [simp]:
  "structuralCheck (req\<lparr>req_remix_of := v\<rparr>) = structuralCheck req"
  by (simp add: structuralCheck_def cong: if_cong)

lemma halfRequest_structure: "structuralCheck halfRequest = None"
  by code_simp

lemma halfRequest_changes:
  "countChanged (row_palette blankRow) (row_pixels blankRow)
     (elements (req_palette halfRequest)) (gridOf (req_pixels halfRequest)) 32 0 0 = Inr 512"
  by code_simp

lemma insertArt_appends:
  "insertArt e st req = Inr st' \<Longrightarrow>
     \<exists>r. st' = st @ [r] \<and> row_id r = uuidv4 e \<and> row_views r = 0 \<and> row_size r = 32"
  by (auto simp: insertArt_def split: if_splits)

lemma postArt_created:
  "fst (postArt e st req) = Status201 i r \<Longrightarrow>
     structuralCheck req = None
     \<and> remixCheck e st (req_remix_of req) 32 (elements (req_palette req))
           (gridOf (req_pixels req)) = Inr None
     \<and> insertArt e st req = Inr (snd (postArt e st req))"
  by (auto simp: postArt_def split: option.splits sum.splits)

text \<open>
  C7. Every answer of the creation handler other than \<^verbatim>\<open>201\<close> (the structural
  rejections, the three remix rejections, and the \<^verbatim>\<open>500\<close> of the catch block)
  leaves the table exactly as it was.
\<close>

theorem postArt_rejected_unchanged:
  "(\<forall>i r. fst (postArt e st req) \<noteq> Status201 i r) \<Longrightarrow> snd (postArt e st req) = st"
  by (auto simp: postArt_def split: option.splits sum.splits)

theorem postArt_rejected_unchanged_witness:
  "fst (postArt env0 [blankRow] (halfRequest\<lparr>req_remix_of := JStr ''gone''\<rparr>))
     = Status400 OriginalNotFound
   \<and> snd (postArt env0 [blankRow] (halfRequest\<lparr>req_remix_of := JStr ''gone''\<rparr>)) = [blankRow]"
proof -
  have r: "fst (postArt env0 [blankRow] (halfRequest\<lparr>req_remix_of := JStr ''gone''\<rparr>))
             = Status400 OriginalNotFound"
    by (simp add: postArt_def halfRequest_structure remixCheck_def queryById_def hasNul_def
          selectById_def paramText_def blankRow_def)
  then have "\<forall>i r. fst (postArt env0 [blankRow] (halfRequest\<lparr>req_remix_of := JStr ''gone''\<rparr>))
               \<noteq> Status201 i r"
    by simp
  then show ?thesis
    using r postArt_rejected_unchanged
            [of env0 "[blankRow]" "halfRequest\<lparr>req_remix_of := JStr ''gone''\<rparr>"]
    by simp
qed

text \<open>
  C2. For a submission that passes the structural checks and names a parent that the
  query returns, with \<open>changedCount\<close> the result of the comparison: the handler answers
  \<^verbatim>\<open>400\<close> exactly when \<open>changedCount\<close> exceeds \<open>\<lfloor>32 \<sqdot> 32 / 2\<rfloor> = 512\<close> or is zero,
  with the matching reason; a count equal to the limit is not rejected.
\<close>

theorem postArt_remix_policy:
  assumes "structuralCheck req = None"
    and "truthy (req_remix_of req)"
    and "queryById st (paramText e (req_remix_of req)) = Inr (originalRow # others)"
    and "countChanged (row_palette originalRow) (row_pixels originalRow)
           (elements (req_palette req)) (gridOf (req_pixels req)) 32 0 0 = Inr changedCount"
  shows "((\<exists>r. fst (postArt e st req) = Status400 r) \<longleftrightarrow>
            (changedCount > maxChangesOf 32 \<or> changedCount = 0))
         \<and> (changedCount > maxChangesOf 32 \<longrightarrow>
               postArt e st req = (Status400 (TooManyChanged (maxChangesOf 32) changedCount), st))
         \<and> (changedCount = 0 \<longrightarrow> postArt e st req = (Status400 NoPixelsChanged, st))
         \<and> (changedCount = maxChangesOf 32 \<longrightarrow> (\<forall>r. fst (postArt e st req) \<noteq> Status400 r))
         \<and> maxChangesOf 32 = 512"
  using assms
  by (auto simp: postArt_def remixCheck_def maxChangesOf_def Let_def split: sum.splits)

theorem postArt_remix_policy_witness:
  "maxChangesOf 32 = 512 \<and> (\<forall>r. fst (postArt env0 [blankRow] halfRequest) \<noteq> Status400 r)"
proof -
  have t: "truthy (req_remix_of halfRequest)" by (simp add: halfRequest_def)
  have s: "queryById [blankRow] (paramText env0 (req_remix_of halfRequest)) = Inr (blankRow # [])"
    by (simp add: queryById_def hasNul_def selectById_def paramText_def halfRequest_def
          blankRow_def)
  show ?thesis
    using postArt_remix_policy [OF halfRequest_structure t s halfRequest_changes]
    by simp
qed

text \<open>
  C8. A submission declares a parent when \<^verbatim>\<open>remix_of\<close> is truthy. Without one the
  remix block lets the submission through whatever the table and the pixels are, and no
  \<^verbatim>\<open>400\<close> follows. With a parent that no row of the table has, the submission is
  turned away whatever the palette and the pixels are and the table stays as it was: with
  the rejection \<open>OriginalNotFound\<close>, or with \<^verbatim>\<open>500\<close> when the lookup itself throws,
  which it does exactly when the identifier holds the character \<^verbatim>\<open>U+0000\<close>. Only
  with a parent that the lookup returns does the outcome come from the comparison.
\<close>

theorem remix_comparison_gating:
  assumes "structuralCheck req = None"
  shows "(\<not> truthy (req_remix_of req) \<longrightarrow>
            remixCheck e st (req_remix_of req) 32 pal pixels = Inr None
            \<and> (\<forall>r. fst (postArt e st req) \<noteq> Status400 r))
       \<and> (truthy (req_remix_of req)
            \<and> (\<forall>r \<in> set st. row_id r \<noteq> paramText e (req_remix_of req)) \<longrightarrow>
            remixCheck e st (req_remix_of req) 32 pal pixels =
              (if CHR 0x00 \<in> set (paramText e (req_remix_of req)) then Inl QueryError
               else Inr (Some OriginalNotFound))
            \<and> postArt e st req =
              (if CHR 0x00 \<in> set (paramText e (req_remix_of req)) then Status500
               else Status400 OriginalNotFound, st))
       \<and> (truthy (req_remix_of req)
            \<and> queryById st (paramText e (req_remix_of req)) = Inr (originalRow # others) \<longrightarrow>
            remixCheck e st (req_remix_of req) 32 pal pixels =
              (case countChanged (row_palette originalRow) (row_pixels originalRow)
                      pal pixels 32 0 0 of
                 Inl ex \<Rightarrow> Inl ex
               | Inr c \<Rightarrow>
                   Inr (if c > maxChangesOf 32 then Some (TooManyChanged (maxChangesOf 32) c)
                        else if c = 0 then Some NoPixelsChanged else None)))
       \<and> (queryById st (paramText e (req_remix_of req)) = Inr (originalRow # others) \<longleftrightarrow>
            CHR 0x00 \<notin> set (paramText e (req_remix_of req))
            \<and> filter (\<lambda>r. row_id r = paramText e (req_remix_of req)) st = originalRow # others)"
proof -
  have none: "selectById st k = []" if "\<forall>r \<in> set st. row_id r \<noteq> k" for k
    using that by (simp add: selectById_def)
  show ?thesis
    using assms none [of "paramText e (req_remix_of req)"]
    by (auto simp: postArt_def remixCheck_def queryById_def hasNul_def selectById_def Let_def
          split: sum.splits option.splits)
qed

theorem remix_comparison_gating_witness:
  "(\<forall>r. fst (postArt env0 [blankRow] (halfRequest\<lparr>req_remix_of := JUndefined\<rparr>)) \<noteq> Status400 r)
   \<and> postArt env0 [blankRow] (halfRequest\<lparr>req_remix_of := JStr ''gone''\<rparr>)
       = (Status400 OriginalNotFound, [blankRow])
   \<and> postArt env0 [blankRow] (halfRequest\<lparr>req_remix_of := JStr [CHR ''a'', CHR 0x00, CHR ''b'']\<rparr>)
       = (Status500, [blankRow])"
proof -
  have a: "structuralCheck (halfRequest\<lparr>req_remix_of := JUndefined\<rparr>) = None"
    and b: "structuralCheck (halfRequest\<lparr>req_remix_of := JStr ''gone''\<rparr>) = None"
    and c: "structuralCheck (halfRequest\<lparr>req_remix_of := JStr [CHR ''a'', CHR 0x00, CHR ''b'']\<rparr>)
              = None"
    by (simp_all add: halfRequest_structure)
  show ?thesis
    using remix_comparison_gating [OF a, of env0 "[blankRow]"]
          remix_comparison_gating [OF b, of env0 "[blankRow]"]
          remix_comparison_gating [OF c, of env0 "[blankRow]"]
    by (simp add: paramText_def blankRow_def)
qed

section \<open>Properties of the fetch handler\<close>

lemma selectById_Cons_mem:
  "selectById st k = row # others \<Longrightarrow> row \<in> set st \<and> row_id row = k"
proof -
  assume "selectById st k = row # others"
  then have "row \<in> set (filter (\<lambda>r. row_id r = k) st)" by (simp add: selectById_def)
  then show ?thesis by simp
qed


text \<open>
  A fetch of an artwork that is in the table succeeds as long as no view counter is at
  the top of its range.
\<close>

lemma getArt_succeeds:
  assumes "queryById st k = Inr (row # others)"
    and "\<forall>r \<in> set st. row_views r < int4Max"
    and "\<forall>p. row_remix_of row = Some p \<longrightarrow> \<not> hasNul p"
  shows "\<exists>v st'. getArt st k = (Status200 v, st')"
proof -
  have "\<not> list_ex (\<lambda>r. row_id r = k \<and> int4Max < row_views r + 1) st"
    using assms(2) by (auto simp: list_ex_iff)
  then show ?thesis
    using assms(1,3)
    by (auto simp: getArt_def incrementViews_def queryById_def textOrNull_def Let_def
          split: option.splits list.splits)
qed




section \<open>Properties of the remix comparison\<close>

declare countRow.simps [simp del] countChanged.simps [simp del]

lemma pixelAt_inside:
  "y < length g \<Longrightarrow> x < length (g ! y) \<Longrightarrow> pixelAt g y x = Inr (Some (g ! y ! x))"
  by (simp add: pixelAt_def)

lemma cellChanged_inside:
  assumes "y < length oG" "x < length (oG ! y)" "y < length nG" "x < length (nG ! y)"
  shows "cellChanged oP oG nP nG y x =
           Inr (strictNotEqual (colorAt oP (Some (oG ! y ! x))) (colorAt nP (Some (nG ! y ! x))))"
  using assms by (simp add: cellChanged_def pixelAt_inside)

lemma countRow_count:
  assumes "y < length oG" "sz \<le> length (oG ! y)" "y < length nG" "sz \<le> length (nG ! y)"
  shows "countRow oP oG nP nG sz y x c =
           Inr (c + length (filter
             (\<lambda>x'. strictNotEqual (colorAt oP (Some (oG ! y ! x'))) (colorAt nP (Some (nG ! y ! x'))))
             [x..<sz]))"
  using assms
proof (induction oP oG nP nG sz y x c rule: countRow.induct)
  case (1 oP oG nP nG sz y x c)
  show ?case
  proof (cases "x < sz")
    case True
    then have cell: "cellChanged oP oG nP nG y x =
           Inr (strictNotEqual (colorAt oP (Some (oG ! y ! x))) (colorAt nP (Some (nG ! y ! x))))"
      using "1.prems" by (intro cellChanged_inside) auto
    show ?thesis
      using True cell "1.IH" [OF True cell] "1.prems"
      by (subst countRow.simps) (simp add: upt_conv_Cons)
  next
    case False
    then show ?thesis by (subst countRow.simps) simp
  qed
qed

lemma countChanged_count:
  assumes "\<forall>y<sz. y < length oG \<and> sz \<le> length (oG ! y) \<and> y < length nG \<and> sz \<le> length (nG ! y)"
  shows "countChanged oP oG nP nG sz y c =
           Inr (c + sum_list (map (\<lambda>y'. length (filter
             (\<lambda>x'. strictNotEqual (colorAt oP (Some (oG ! y' ! x'))) (colorAt nP (Some (nG ! y' ! x'))))
             [0..<sz])) [y..<sz]))"
  using assms
proof (induction oP oG nP nG sz y c rule: countChanged.induct)
  case (1 oP oG nP nG sz y c)
  show ?case
  proof (cases "y < sz")
    case True
    then have row: "countRow oP oG nP nG sz y 0 c =
           Inr (c + length (filter
             (\<lambda>x'. strictNotEqual (colorAt oP (Some (oG ! y ! x'))) (colorAt nP (Some (nG ! y ! x'))))
             [0..<sz]))"
      using "1.prems" by (intro countRow_count) auto
    show ?thesis
      using True row "1.IH" [OF True row] "1.prems"
      by (subst countChanged.simps) (simp add: upt_conv_Cons)
  next
    case False
    then show ?thesis by (subst countChanged.simps) simp
  qed
qed

lemma count_cells:
  "sum_list (map (\<lambda>y. length (filter (D y) [0..<n])) [0..<n])
     = card {(x, y). x < n \<and> y < n \<and> D y x}"
proof -
  have "sum_list (map (\<lambda>y. length (filter (D y) [0..<n])) [0..<n])
          = (\<Sum>y \<in> {..<n}. card {x. x < n \<and> D y x})"
  proof -
    have "\<And>y. length (filter (D y) [0..<n]) = card {x. x < n \<and> D y x}"
    proof -
      fix y
      have "length (filter (D y) [0..<n]) = card ({x. D y x} \<inter> set [0..<n])"
        by (rule distinct_length_filter) simp
      also have "{x. D y x} \<inter> set [0..<n] = {x. x < n \<and> D y x}" by auto
      finally show "length (filter (D y) [0..<n]) = card {x. x < n \<and> D y x}" .
    qed
    then show ?thesis
      by (simp add: interv_sum_list_conv_sum_set_nat atLeast0LessThan)
  qed
  also have "\<dots> = card (SIGMA y : {..<n}. {x. x < n \<and> D y x})"
    by simp
  also have "\<dots> = card ((\<lambda>(y, x). (x, y)) ` (SIGMA y : {..<n}. {x. x < n \<and> D y x}))"
    by (rule card_image [symmetric]) (auto simp: inj_on_def)
  also have "(\<lambda>(y, x). (x, y)) ` (SIGMA y : {..<n}. {x. x < n \<and> D y x})
               = {(x, y). x < n \<and> y < n \<and> D y x}"
    by (auto simp: image_iff)
  finally show ?thesis .
qed

lemma strictNotEqual_strings: "strictNotEqual (JStr a) (JStr b) \<longleftrightarrow> a \<noteq> b"
  by simp

text \<open>
  A reordered palette: the new grid has other indices than the original in three cells
  that show the same colours, and the same index in the one cell whose colour differs.
\<close>

lemma reordered_palette_count:
  "countChanged [JStr ''#000000'', JStr ''#FFFFFF''] [[0, 1], [1, 0]]
                [JStr ''#FFFFFF'', JStr ''#000000''] [[1, 0], [0, 0]] 2 0 0 = Inr 1"
  by code_simp

text \<open>
  C1, as the code has it. On grids of at least \<open>sz\<close> rows and columns the comparison
  returns the number of cells \<open>(x, y)\<close> whose two resolved palette entries are not
  strictly equal; for two strings that is inequality of the text, letter case included.
  Indices are never compared.
\<close>

theorem countChanged_counts_differing_entries:
  assumes "\<forall>y<sz. y < length oG \<and> sz \<le> length (oG ! y) \<and> y < length nG \<and> sz \<le> length (nG ! y)"
  shows "countChanged oP oG nP nG sz 0 0 =
           Inr (card {(x, y). x < sz \<and> y < sz \<and>
                  strictNotEqual (colorAt oP (Some (oG ! y ! x))) (colorAt nP (Some (nG ! y ! x)))})
         \<and> (\<forall>a b. strictNotEqual (JStr a) (JStr b) \<longleftrightarrow> a \<noteq> b)"
  by (simp add: countChanged_count [OF assms] count_cells)

theorem countChanged_counts_differing_entries_witness:
  "card {(x, y). x < 2 \<and> y < 2 \<and>
      strictNotEqual
        (colorAt [JStr ''#000000'', JStr ''#FFFFFF''] (Some ([[0, 1], [1, 0]] ! y ! x)))
        (colorAt [JStr ''#FFFFFF'', JStr ''#000000''] (Some ([[1, 0], [0, 0]] ! y ! x)))} = 1"
proof -
  have shape: "\<forall>y<2. y < length [[0, 1], [1, 0 :: int]] \<and> 2 \<le> length ([[0, 1], [1, 0 :: int]] ! y)
      \<and> y < length [[1, 0], [0, 0 :: int]] \<and> 2 \<le> length ([[1, 0], [0, 0 :: int]] ! y)"
    by (simp add: less_Suc_eq numeral_2_eq_2)
  show ?thesis
    using countChanged_counts_differing_entries [OF shape,
            of "[JStr ''#000000'', JStr ''#FFFFFF'']" "[JStr ''#FFFFFF'', JStr ''#000000'']"]
          reordered_palette_count
    by simp
qed

text \<open>
  C1, as it is worded, asks for a comparison of 24-bit colour values. The palettes
  \<^verbatim>\<open>["#aabbcc"]\<close> and \<^verbatim>\<open>["#AABBCC"]\<close> hold the same three channels, yet the one
  cell that resolves to them is counted as changed.
\<close>

theorem countChanged_letter_case_counterexample:
  "channels ''#aabbcc'' = channels ''#AABBCC''
   \<and> cellChanged [JStr ''#aabbcc''] [[0]] [JStr ''#AABBCC''] [[0]] 0 0 = Inr True
   \<and> countChanged [JStr ''#aabbcc''] [[0]] [JStr ''#AABBCC''] [[0]] 1 0 0 = Inr 1"
  by code_simp

section \<open>Invariants of the table\<close>

text \<open>
  Every row the creation handler inserts has the shape above, and identifiers stay
  distinct. On such a table the comparison of a structurally valid remix with its parent
  always returns a count, and the handler answers \<^verbatim>\<open>500\<close> only when the
  database refuses a statement.
\<close>

lemma gridOf_valid:
  assumes "validatePixels pixels sz n"
  shows "length (gridOf pixels) = sz"
    and "\<forall>row \<in> set (gridOf pixels). length row = sz \<and> (\<forall>p \<in> set row. 0 \<le> p \<and> p < int n)"
proof -
  from assms obtain rows where rows: "pixels = JArr rows" "length rows = sz"
    "\<forall>row \<in> set rows. \<exists>ps. row = JArr ps \<and> length ps = sz \<and>
       (\<forall>p \<in> set ps. \<exists>i::int. p = JNum (of_int i) \<and> 0 \<le> i \<and> i < int n)"
    unfolding validatePixels_shape by blast
  show "length (gridOf pixels) = sz" using rows by (simp add: gridOf_def)
  show "\<forall>row \<in> set (gridOf pixels). length row = sz \<and> (\<forall>p \<in> set row. 0 \<le> p \<and> p < int n)"
  proof
    fix row assume "row \<in> set (gridOf pixels)"
    then obtain j where j: "j \<in> set rows" "row = map intOf (elements j)"
      using rows(1) by (auto simp: gridOf_def)
    with rows(3) obtain ps where ps: "j = JArr ps" "length ps = sz"
      "\<forall>p \<in> set ps. \<exists>i::int. p = JNum (of_int i) \<and> 0 \<le> i \<and> i < int n" by blast
    have "\<forall>p \<in> set row. 0 \<le> p \<and> p < int n"
    proof
      fix p assume "p \<in> set row"
      then obtain v where v: "v \<in> set ps" "p = intOf v" using j ps(1) by auto
      with ps(3) obtain i :: int where "v = JNum (of_int i)" "0 \<le> i" "i < int n" by blast
      then show "0 \<le> p \<and> p < int n" using v by simp
    qed
    moreover have "length row = sz" using j ps by simp
    ultimately show "length row = sz \<and> (\<forall>p \<in> set row. 0 \<le> p \<and> p < int n)" by blast
  qed
qed

lemma structuralCheck_None:
  assumes "structuralCheck req = None"
  shows "validatePalette (req_palette req)"
    and "validatePixels (req_pixels req) 32 (length (elements (req_palette req)))"
    and "req_size req = JNum 32"
  using assms by (auto simp: structuralCheck_def split: if_splits)

lemma validatePalette_elements:
  assumes "validatePalette palette"
  shows "1 \<le> length (elements palette) \<and> length (elements palette) \<le> 256
    \<and> list_all regexTestHex (elements palette)"
  using assms
  by (cases palette) (auto simp: validatePalette_def Suc_le_eq split: if_splits)

lemma insertArt_wellFormed:
  assumes "structuralCheck req = None" "insertArt e st req = Inr st'"
    and "\<forall>r \<in> set st. wellFormedRow r"
  shows "\<forall>r \<in> set st'. wellFormedRow r"
proof -
  note sc = structuralCheck_None [OF assms(1)]
  note g = gridOf_valid [OF sc(2)]
  note pl = validatePalette_elements [OF sc(1)]
  from assms(2) obtain r where r: "st' = st @ [r]"
    "row_palette r = elements (req_palette req)" "row_pixels r = gridOf (req_pixels req)"
    "row_size r = 32"
    by (auto simp: insertArt_def split: if_splits)
  have "wellFormedRow r" using g pl r by (simp add: wellFormedRow_def)
  with assms(3) r(1) show ?thesis by auto
qed

lemma postArt_wellFormed:
  assumes "\<forall>r \<in> set st. wellFormedRow r"
  shows "\<forall>r \<in> set (snd (postArt e st req)). wellFormedRow r"
proof (cases "\<exists>i v. fst (postArt e st req) = Status201 i v")
  case True
  then obtain i v where "fst (postArt e st req) = Status201 i v" by blast
  then have "structuralCheck req = None" "insertArt e st req = Inr (snd (postArt e st req))"
    by (auto simp: postArt_def split: option.splits sum.splits)
  then show ?thesis using assms by (rule insertArt_wellFormed)
next
  case False
  then have "snd (postArt e st req) = st"
    by (auto simp: postArt_def split: option.splits sum.splits)
  with assms show ?thesis by simp
qed

lemma postArt_distinct_ids:
  assumes "distinct (map row_id st)"
  shows "distinct (map row_id (snd (postArt e st req)))"
  using assms
  by (auto simp: postArt_def insertArt_def list_ex_iff split: option.splits sum.splits if_splits)

lemma comparison_returns:
  assumes "structuralCheck req = None" "wellFormedRow originalRow"
  shows "\<exists>c. countChanged (row_palette originalRow) (row_pixels originalRow)
           (elements (req_palette req)) (gridOf (req_pixels req)) 32 0 0 = Inr c"
proof -
  note g = gridOf_valid [OF structuralCheck_None(2) [OF assms(1)]]
  have "\<forall>y<32. y < length (row_pixels originalRow) \<and> 32 \<le> length (row_pixels originalRow ! y)
          \<and> y < length (gridOf (req_pixels req)) \<and> 32 \<le> length (gridOf (req_pixels req) ! y)"
    using g assms(2) by (simp add: wellFormedRow_def)
  then show ?thesis by (simp add: countChanged_count)
qed

lemma postArt_never_throws:
  assumes "\<forall>r \<in> set st. wellFormedRow r" "\<not> list_ex (\<lambda>r. row_id r = uuidv4 e) st"
    and "\<not> insertRefused e req"
  shows "fst (postArt e st req) \<noteq> Status500"
proof (cases "structuralCheck req")
  case (Some r)
  then show ?thesis by (simp add: postArt_def)
next
  case None
  show ?thesis
  proof (cases "truthy (req_remix_of req)")
    case False
    then show ?thesis using None assms(2,3)
      by (simp add: postArt_def remixCheck_def insertArt_def)
  next
    case True
    then have q: "queryById st (paramText e (req_remix_of req))
                    = Inr (selectById st (paramText e (req_remix_of req)))"
      using assms(3) by (simp add: queryById_def insertRefused_def)
    show ?thesis
    proof (cases "selectById st (paramText e (req_remix_of req))")
      case Nil
      then show ?thesis using None True q by (simp add: postArt_def remixCheck_def)
    next
      case (Cons originalRow others)
      then have "originalRow \<in> set (filter (\<lambda>r. row_id r = paramText e (req_remix_of req)) st)"
        by (simp add: selectById_def)
      then have "wellFormedRow originalRow" using assms(1) by simp
      from comparison_returns [OF None this] obtain c where
        "countChanged (row_palette originalRow) (row_pixels originalRow)
           (elements (req_palette req)) (gridOf (req_pixels req)) 32 0 0 = Inr c" ..
      then show ?thesis using None True Cons q assms(2,3)
        by (simp add: postArt_def remixCheck_def insertArt_def Let_def)
    qed
  qed
qed

section \<open>Properties of the rounding\<close>

text \<open>
  Rounding moves a number by at most half a unit in its last place, that is by at most
  \<open>\<bar>x\<bar> / 2\<^sup>5\<^sup>3\<close>.
\<close>

lemma roundHalfEven_err: "\<bar>of_int (roundHalfEven y) - y\<bar> \<le> 1 / 2"
proof -
  have "of_int \<lfloor>y\<rfloor> \<le> y" "y < of_int \<lfloor>y\<rfloor> + 1" by linarith+
  then show ?thesis unfolding roundHalfEven_def Let_def by (auto simp: abs_le_iff)
qed

lemma binaryExponent_le:
  assumes "x \<noteq> 0"
  shows "2 powi (binaryExponent x) \<le> \<bar>x\<bar>"
proof -
  obtain p q where pq: "quotient_of \<bar>x\<bar> = (p, q)" by (cases "quotient_of \<bar>x\<bar>")
  have q: "0 < q" using pq quotient_of_denom_pos by blast
  have x: "\<bar>x\<bar> = of_int p / of_int q" using pq quotient_of_div by blast
  have p: "0 < p"
  proof (rule ccontr)
    assume "\<not> 0 < p"
    then have "of_int p / (of_int q :: rat) \<le> 0" using q by (simp add: divide_nonpos_pos)
    with x assms show False by simp
  qed
  let ?d = "bitlen p - bitlen q"
  show ?thesis
  proof (cases "2 powi ?d \<le> \<bar>x\<bar>")
    case True
    then show ?thesis by (simp add: binaryExponent_def pq)
  next
    case False
    have bp: "2 ^ nat (bitlen p - 1) \<le> p" and bq: "q < 2 ^ nat (bitlen q)"
      using bitlen_bounds [OF p] bitlen_bounds [OF q] by auto
    have bp1: "1 \<le> bitlen p" using p bitlen_eq_zero_iff [of p] bitlen_nonneg [of p] by linarith
    have "?d - 1 = (bitlen p - 1) - bitlen q" by simp
    then have "(2::rat) powi (?d - 1) = 2 powi (bitlen p - 1) / 2 powi (bitlen q)"
      by (simp only: power_int_diff [of "2::rat", simplified])
    also have "\<dots> = 2 ^ nat (bitlen p - 1) / 2 ^ nat (bitlen q)"
      using bp1 bitlen_nonneg [of q] by (simp add: power_int_def)
    also have "\<dots> \<le> of_int p / of_int q"
    proof -
      have 1: "(2::rat) ^ nat (bitlen p - 1) \<le> of_int p"
        using bp by (metis of_int_le_iff of_int_numeral of_int_power)
      have 2: "(of_int q :: rat) \<le> 2 ^ nat (bitlen q)"
        using bq by (metis less_imp_le of_int_le_iff of_int_numeral of_int_power)
      have 3: "(0::rat) \<le> of_int p" "(0::rat) < of_int q" using p q by simp_all
      show ?thesis using 1 2 3 by (intro frac_le)
    qed
    finally have "2 powi (?d - 1) \<le> \<bar>x\<bar>" using x by simp
    with False show ?thesis by (simp add: binaryExponent_def pq)
  qed
qed

lemma binaryExponent_gt:
  assumes "x \<noteq> 0"
  shows "\<bar>x\<bar> < 2 powi (binaryExponent x + 1)"
proof -
  obtain p q where pq: "quotient_of \<bar>x\<bar> = (p, q)" by (cases "quotient_of \<bar>x\<bar>")
  have q: "0 < q" using pq quotient_of_denom_pos by blast
  have x: "\<bar>x\<bar> = of_int p / of_int q" using pq quotient_of_div by blast
  have p: "0 < p"
  proof (rule ccontr)
    assume "\<not> 0 < p"
    then have "of_int p / (of_int q :: rat) \<le> 0" using q by (simp add: divide_nonpos_pos)
    with x assms show False by simp
  qed
  let ?d = "bitlen p - bitlen q"
  show ?thesis
  proof (cases "2 powi ?d \<le> \<bar>x\<bar>")
    case False
    then show ?thesis by (simp add: binaryExponent_def pq)
  next
    case True
    have bp: "p < 2 ^ nat (bitlen p)" and bq: "2 ^ nat (bitlen q - 1) \<le> q"
      using bitlen_bounds [OF p] bitlen_bounds [OF q] by auto
    have bq1: "1 \<le> bitlen q" using q bitlen_eq_zero_iff [of q] bitlen_nonneg [of q] by linarith
    have 1: "(of_int p :: rat) < 2 ^ nat (bitlen p)"
      using bp by (metis of_int_less_iff of_int_numeral of_int_power)
    have 2: "(2::rat) ^ nat (bitlen q - 1) \<le> of_int q"
      using bq by (metis of_int_le_iff of_int_numeral of_int_power)
    have "of_int p / (of_int q :: rat) < 2 ^ nat (bitlen p) / 2 ^ nat (bitlen q - 1)"
      using 1 2 p q by (intro frac_less) auto
    also have "\<dots> = 2 powi (bitlen p) / 2 powi (bitlen q - 1)"
      using bq1 bitlen_nonneg [of p] by (simp add: power_int_def)
    also have "\<dots> = 2 powi (bitlen p - (bitlen q - 1))"
      by (simp only: power_int_diff [of "2::rat", simplified])
    also have "bitlen p - (bitlen q - 1) = ?d + 1" by simp
    finally have "\<bar>x\<bar> < 2 powi (?d + 1)" using x by simp
    with True show ?thesis by (simp add: binaryExponent_def pq)
  qed
qed

lemma roundDouble_err: "\<bar>roundDouble x - x\<bar> \<le> \<bar>x\<bar> / 2 ^ 53"
proof (cases "x = 0")
  case True
  then show ?thesis by (simp add: roundDouble_def)
next
  case False
  define u :: rat where "u = 2 powi (binaryExponent x - 52)"
  have u: "0 < u" by (simp add: u_def)
  have ue: "u = 2 powi (binaryExponent x) / 2 ^ 52"
    by (simp add: u_def power_int_diff)
  have ux: "u \<le> \<bar>x\<bar> / 2 ^ 52"
    using binaryExponent_le [OF False] by (simp add: ue divide_right_mono)
  have rd: "roundDouble x = of_int (roundHalfEven (x / u)) * u"
    using False by (simp add: roundDouble_def u_def Let_def)
  have "roundDouble x - x = (of_int (roundHalfEven (x / u)) - x / u) * u"
    using u by (simp add: rd algebra_simps)
  then have "\<bar>roundDouble x - x\<bar> = \<bar>of_int (roundHalfEven (x / u)) - x / u\<bar> * u"
    using u by (simp add: abs_mult)
  also have "\<dots> \<le> (1 / 2) * u"
    using roundHalfEven_err [of "x / u"] u by (intro mult_right_mono) auto
  also have "\<dots> \<le> (1 / 2) * (\<bar>x\<bar> / 2 ^ 52)" using ux by simp
  finally show ?thesis by simp
qed

text \<open>
  The ramp index of a colour whose channels sum to \<open>s\<close>, computed in doubles as the
  source does, is \<open>s div 85\<close>: where \<open>s\<close> is a multiple of 85 by evaluation (the product
  of the rounded quotient with 9 rounds back to the integer), elsewhere because the
  exact value is at least \<open>1/85\<close> away from the next integer.
\<close>

lemma rampIndex_multiples:
  "list_all (\<lambda>k. \<lfloor>roundDouble (roundDouble (of_int (85 * k) / (3 * 255)) * 9)\<rfloor> = k) [0..9]"
  by code_simp

lemma rampIndex_between:
  assumes k: "0 \<le> k" "k \<le> 8" and r: "1 \<le> r" "r \<le> 84"
  shows "\<lfloor>roundDouble (roundDouble (of_int (85 * k + r) / (3 * 255)) * 9)\<rfloor> = k"
proof -
  define s where "s = 85 * k + r"
  define x :: rat where "x = of_int s / (3 * 255)"
  define b where "b = roundDouble x"
  define v where "v = roundDouble (b * 9)"
  have s: "1 \<le> s" "s \<le> 764" using k r by (auto simp: s_def)
  have x: "0 < x" "x < 1" using s by (auto simp: x_def)
  define eps :: rat where "eps = 1 / 2 ^ 53"
  have eps: "0 < eps" "eps < 1 / 8500" by (simp_all add: eps_def)
  have "\<bar>b - x\<bar> \<le> \<bar>x\<bar> / 2 ^ 53" unfolding b_def by (rule roundDouble_err)
  then have eb: "\<bar>b - x\<bar> \<le> x * eps" using x by (simp add: eps_def)
  have xe: "x * eps \<le> eps" using x eps by simp
  have eb1: "b - x \<le> x * eps" and eb2: "x - b \<le> x * eps"
    using eb by (auto simp: abs_le_iff)
  have b: "0 \<le> b" "b \<le> 1 + eps"
  proof -
    have "x * eps \<le> x * 1" using x eps by (intro mult_left_mono) auto
    then show "0 \<le> b" using eb2 x by linarith
    show "b \<le> 1 + eps" using eb1 xe x by linarith
  qed
  have "\<bar>v - b * 9\<bar> \<le> \<bar>b * 9\<bar> / 2 ^ 53" unfolding v_def by (rule roundDouble_err)
  then have ev: "\<bar>v - b * 9\<bar> \<le> 9 * (b * eps)" using b by (simp add: eps_def)
  have be: "b * eps \<le> (1 + eps) * eps" using b eps by (intro mult_right_mono) auto
  have ee: "eps * eps \<le> eps" using eps by (simp add: mult_left_le)
  have x9: "x * 9 = of_int k + of_int r / 85" by (simp add: x_def s_def field_simps)
  have "1 \<le> (of_int r :: rat)" "(of_int r :: rat) \<le> 84" using r by simp_all
  then have lo: "of_int k + 1 / 85 \<le> x * 9" and hi: "x * 9 \<le> of_int k + 84 / 85"
    by (simp_all add: x9)
  have be': "b * eps \<le> 2 * eps" using be ee by (simp add: algebra_simps)
  have ev1: "v - b * 9 \<le> 9 * (b * eps)" and ev2: "b * 9 - v \<le> 9 * (b * eps)"
    using ev by (auto simp: abs_le_iff)
  have "of_int k \<le> v" "v < of_int k + 1"
  proof -
    show "of_int k \<le> v" using eb2 xe ev2 be' lo eps by linarith
    show "v < of_int k + 1" using eb1 xe ev1 be' hi eps by linarith
  qed
  then have "\<lfloor>v\<rfloor> = k" by (simp add: floor_unique)
  then show ?thesis by (simp add: v_def b_def x_def s_def)
qed

lemma rampIndex_exact:
  assumes "0 \<le> s" "s \<le> 765"
  shows "\<lfloor>roundDouble (roundDouble (of_int s / (3 * 255)) * 9)\<rfloor> = s div 85"
proof (cases "s mod 85 = 0")
  case True
  moreover have "85 * (s div 85) + s mod 85 = s" by (rule mult_div_mod_eq)
  ultimately have "s = 85 * (s div 85)" by simp
  then obtain k where k: "s = 85 * k" ..
  have "0 \<le> k" "k \<le> 9" using assms k by linarith+
  then have "k \<in> set [0..9]" by simp
  with rampIndex_multiples
  have "\<lfloor>roundDouble (roundDouble (of_int (85 * k) / (3 * 255)) * 9)\<rfloor> = k"
    by (simp add: list_all_iff)
  with k show ?thesis by simp
next
  case False
  define k where "k = s div 85"
  define r where "r = s mod 85"
  have sr: "s = 85 * k + r" by (simp add: k_def r_def)
  have "0 \<le> r" "r < 85" by (simp_all add: r_def)
  with False have r: "1 \<le> r" "r \<le> 84" by (auto simp: r_def)
  have k: "0 \<le> k" "k \<le> 8" using assms sr r by linarith+
  have "\<lfloor>roundDouble (roundDouble (of_int (85 * k + r) / (3 * 255)) * 9)\<rfloor> = k"
    using k r by (rule rampIndex_between)
  then have "\<lfloor>roundDouble (roundDouble (of_int s / (3 * 255)) * 9)\<rfloor> = k" by (simp only: sr)
  then show ?thesis by (simp only: k_def)
qed

section \<open>Properties of the ASCII view\<close>

lemma hexDigit_value: "hexDigit c \<Longrightarrow> \<exists>d<16. digitValue c = Some d"
  by (auto simp: hexDigit_def digitValue_def Let_def)

lemma hexDigit_plain:
  assumes "hexDigit c"
  shows "\<not> isWhiteSpace c" "c \<noteq> CHR ''-''" "c \<noteq> CHR ''+''" "c \<noteq> CHR ''x''" "c \<noteq> CHR ''X''"
  using assms by (auto simp: hexDigit_def isWhiteSpace_def Let_def)

lemma parseInt16_two_digits:
  assumes "hexDigit a" "hexDigit b"
  shows "parseInt16 [a, b] = Some (int (channelValue [a, b]))" and "channelValue [a, b] \<le> 255"
proof -
  obtain da db where d: "digitValue a = Some da" "da < 16" "digitValue b = Some db" "db < 16"
    using assms hexDigit_value by blast
  show "parseInt16 [a, b] = Some (int (channelValue [a, b]))"
    using d hexDigit_plain [OF assms(1)] hexDigit_plain [OF assms(2)]
    by (simp add: parseInt16_def channelValue_def Let_def)
  show "channelValue [a, b] \<le> 255"
    using d by (simp add: channelValue_def)
qed

lemma hexColorPattern_shape:
  assumes "hexColorPattern s"
  obtains a b c d e f where "s = [CHR ''#'', a, b, c, d, e, f]"
    "hexDigit a" "hexDigit b" "hexDigit c" "hexDigit d" "hexDigit e" "hexDigit f"
proof -
  from assms obtain ds where s: "s = CHR ''#'' # ds" "length ds = 6" "list_all hexDigit ds"
    by (auto simp: hexColorPattern_def split: list.splits)
  then obtain a b c d e f where "ds = [a, b, c, d, e, f]"
    by (auto simp: length_Suc_conv numeral_eq_Suc)
  with s that show thesis by auto
qed

lemma brightnessOf_valid:
  assumes "hexColorPattern s"
  obtains r g b where "channels s = (r, g, b)" "r \<le> 255" "g \<le> 255" "b \<le> 255"
    "brightnessOf s = Some (roundDouble (of_int (int (r + g + b)) / (3 * 255)))"
proof -
  from assms obtain a b c d e f where s: "s = [CHR ''#'', a, b, c, d, e, f]"
    and h: "hexDigit a" "hexDigit b" "hexDigit c" "hexDigit d" "hexDigit e" "hexDigit f"
    by (rule hexColorPattern_shape)
  have sl: "slice 1 3 s = [a, b]" "slice 3 5 s = [c, d]" "slice 5 7 s = [e, f]"
    by (simp_all add: slice_def s)
  note p = parseInt16_two_digits [OF h(1) h(2)] parseInt16_two_digits [OF h(3) h(4)]
    parseInt16_two_digits [OF h(5) h(6)]
  show thesis
  proof (rule that)
    show "channels s = (channelValue [a, b], channelValue [c, d], channelValue [e, f])"
      by (simp only: channels_def sl)
    show "channelValue [a, b] \<le> 255" "channelValue [c, d] \<le> 255" "channelValue [e, f] \<le> 255"
      using p by simp_all
    show "brightnessOf s = Some (roundDouble (of_int (int (channelValue [a, b] + channelValue [c, d]
              + channelValue [e, f])) / (3 * 255)))"
      unfolding brightnessOf_def sl using p by simp
  qed
qed

lemma length_chars: "length chars = 10"
  by (simp add: chars_def)

lemma exact_index: "\<lfloor>(of_nat n :: rat) / 85\<rfloor> = int (n div 85)"
proof -
  have "(of_nat n :: rat) / 85 = of_nat n / of_nat 85" by simp
  then show ?thesis by (simp only: floor_divide_of_nat_eq)
qed

lemma asciiChar_valid:
  assumes "list_all hexColorPattern pal" "0 \<le> p" "p < int (length pal)"
  shows "asciiChar (map brightnessOf pal) p = [chars ! specRampIndex (pal ! nat p)]"
    and "specRampIndex (pal ! nat p) < length chars"
proof -
  have n: "nat p < length pal" using assms by simp
  then have "hexColorPattern (pal ! nat p)" using assms(1) by (simp add: list_all_length)
  then obtain r g b where c: "channels (pal ! nat p) = (r, g, b)"
    and le: "r \<le> 255" "g \<le> 255" "b \<le> 255"
    and br: "brightnessOf (pal ! nat p) = Some (roundDouble (of_int (int (r + g + b)) / (3 * 255)))"
    by (rule brightnessOf_valid)
  have s: "0 \<le> int (r + g + b)" "int (r + g + b) \<le> 765" using le by simp_all
  have spec: "specRampIndex (pal ! nat p) = (r + g + b) div 85"
    by (simp add: specRampIndex_def specBrightness_def c length_chars exact_index
          del: of_nat_add)
  define B where "B = roundDouble (of_int (int (r + g + b)) / (3 * 255))"
  define K where "K = (r + g + b) div 85"
  have nine: "(of_nat (length chars) - 1 :: rat) = 9" by (simp add: length_chars)
  have idx: "\<lfloor>roundDouble (B * (of_nat (length chars) - 1))\<rfloor> = int K"
    unfolding nine B_def K_def using rampIndex_exact [OF s] by (simp only: zdiv_int of_nat_numeral)
  have small: "K < 10" using le by (simp add: K_def)
  have outer: "0 \<le> p \<and> p < int (length (map brightnessOf pal))" using assms(2,3) by simp
  have inner: "0 \<le> int K \<and> int K < int (length chars)" using small by (simp add: length_chars)
  have entry: "map brightnessOf pal ! nat p = Some B" using n br by (simp add: B_def)
  show "specRampIndex (pal ! nat p) < length chars"
    using small by (simp add: spec length_chars K_def)
  have "asciiChar (map brightnessOf pal) p = [chars ! nat (int K)]"
    unfolding asciiChar_def if_P [OF outer] entry option.case Let_def idx if_P [OF inner] ..
  then show "asciiChar (map brightnessOf pal) p = [chars ! specRampIndex (pal ! nat p)]"
    by (simp add: spec K_def)
qed

lemma validArtwork_shape:
  assumes "validArtwork sz pal pixels"
  shows "list_all hexColorPattern pal" and "1 \<le> length pal" and "length pal \<le> 256"
    and "length pixels = sz"
    and "\<forall>row \<in> set pixels. length row = sz \<and> (\<forall>p \<in> set row. 0 \<le> p \<and> p < int (length pal))"
proof -
  from assms have vp: "validatePalette (JArr (map JStr pal))"
    and vg: "validatePixels (gridJson pixels) sz (length pal)"
    by (simp_all add: validArtwork_def paletteJson_def)
  from vp show "list_all hexColorPattern pal" "1 \<le> length pal" "length pal \<le> 256"
    by (simp_all add: validatePalette_strings)
  from vg show "length pixels = sz"
    by (auto simp: validatePixels_shape gridJson_def)
  show "\<forall>row \<in> set pixels. length row = sz \<and> (\<forall>p \<in> set row. 0 \<le> p \<and> p < int (length pal))"
  proof
    fix row assume "row \<in> set pixels"
    then have "JArr (map (\<lambda>p. JNum (of_int p)) row)
                 \<in> set (map (\<lambda>row. JArr (map (\<lambda>p. JNum (of_int p)) row)) pixels)"
      by simp
    with vg obtain ps where ps: "JArr (map (\<lambda>p. JNum (of_int p)) row) = JArr ps"
      "length ps = sz"
      "\<forall>p \<in> set ps. \<exists>i::int. p = JNum (of_int i) \<and> 0 \<le> i \<and> i < int (length pal)"
      unfolding validatePixels_shape gridJson_def by blast
    then have eq: "ps = map (\<lambda>p. JNum (of_int p)) row" by simp
    have "\<forall>p \<in> set row. 0 \<le> p \<and> p < int (length pal)"
    proof
      fix p assume "p \<in> set row"
      then have "JNum (of_int p) \<in> set ps" by (simp add: eq)
      with ps(3) obtain i :: int where "JNum (of_int p) = JNum (of_int i)" "0 \<le> i"
        "i < int (length pal)" by blast
      then show "0 \<le> p \<and> p < int (length pal)" by simp
    qed
    moreover have "length row = sz" using ps(2) eq by simp
    ultimately show "length row = sz \<and> (\<forall>p \<in> set row. 0 \<le> p \<and> p < int (length pal))"
      by blast
  qed
qed

lemma asciiRow_valid:
  assumes "list_all hexColorPattern pal" "\<forall>p \<in> set row. 0 \<le> p \<and> p < int (length pal)"
  shows "asciiRow (map brightnessOf pal) row
           = map (\<lambda>p. chars ! specRampIndex (pal ! nat p)) row"
  using assms(2)
proof (induction row)
  case Nil
  then show ?case by (simp add: asciiRow_def)
next
  case (Cons p row)
  then have "asciiChar (map brightnessOf pal) p = [chars ! specRampIndex (pal ! nat p)]"
    using assms(1) by (intro asciiChar_valid) auto
  with Cons show ?case by (simp add: asciiRow_def)
qed

lemma asciiArt_valid:
  assumes "validArtwork sz pal pixels"
  shows "asciiArt pal pixels =
           joinWith [newline] (map (map (\<lambda>p. chars ! specRampIndex (pal ! nat p))) pixels)"
proof -
  note sh = validArtwork_shape [OF assms]
  have "map (asciiRow (map brightnessOf pal)) pixels
          = map (map (\<lambda>p. chars ! specRampIndex (pal ! nat p))) pixels"
    using sh(1,5) by (intro map_cong refl asciiRow_valid) auto
  then show ?thesis by (simp only: asciiArt_def)
qed

lemma newline_not_in_chars: "newline \<notin> set chars"
  by (simp add: chars_def newline_def)

lemma example_valid: "validArtwork 2 [''#000000'', ''#FFFFFF''] [[0, 1], [1, 0]]"
  by code_simp


lemma asciiArt_example:
  "asciiArt [''#000000'', ''#FFFFFF''] [[0, 1], [1, 0]] = '' @'' @ [newline] @ ''@ ''"
  by code_simp



lemma brightnessList_strings: "brightnessList e (map JStr pal) = Inr (map brightnessOf pal)"
  by (induction pal) (simp_all add: entryBrightness_def)

lemma splitLines_plain: "CHR 0x0A \<notin> set l \<Longrightarrow> splitLines l = [l]"
  by (induction l) auto

lemma splitLines_first:
  "CHR 0x0A \<notin> set l \<Longrightarrow> splitLines (l @ CHR 0x0A # rest) = l # splitLines rest"
  by (induction l) auto

lemma splitLines_joinWith:
  assumes "\<forall>l \<in> set ls. CHR 0x0A \<notin> set l" "ls \<noteq> []"
  shows "splitLines (joinWith [newline] ls) = ls"
  using assms
proof (induction "[newline]" ls rule: joinWith.induct)
  case 1
  then show ?case by simp
next
  case (2 l)
  then show ?case by (simp add: splitLines_plain)
next
  case (3 l m ls)
  then show ?case by (simp add: splitLines_first newline_def)
qed

lemma getAscii_valid:
  assumes "queryById st k = Inr (row # others)"
    and "row_palette row = map JStr pal" and "row_pixels row = pixels"
  shows "getAscii e st k = (Text200 (asciiArt pal pixels), st)"
  using assms by (simp add: getAscii_def brightnessList_strings asciiArt_def)

lemma getAscii_example:
  "getAscii env0 [tinyRow] ''tiny'' = (Text200 ('' @'' @ [CHR 0x0A] @ ''@ ''), [tinyRow])"
  by code_simp

lemma tiny_query: "queryById [tinyRow] ''tiny'' = Inr (tinyRow # [])"
  by (simp add: queryById_def hasNul_def selectById_def tinyRow_def)

text \<open>
  C9. Let the query for an identifier return a row that holds a validated artwork of
  size \<open>sz > 0\<close>. The handler answers 200 with a text and leaves the table as it was.
  Cut at its line feeds (the character \<open>0x0A\<close>), the text has exactly \<open>sz\<close> lines, each
  of exactly \<open>sz\<close> characters, all from the ramp \<^verbatim>\<open> .:-=+*#%@\<close>. The transform is
  deterministic: a second fetch, made on the table that the first one left, answers the
  same text, and so does a fetch with any collaborators, from any table, under any
  identifier, of a row with the same palette and the same grid.
\<close>

theorem getAscii_lines:
  assumes "queryById st k = Inr (row # others)"
    and "row_palette row = map JStr pal" and "row_pixels row = pixels"
    and "validArtwork sz pal pixels" and "0 < sz"
  shows "\<exists>body. getAscii e st k = (Text200 body, st)
       \<and> length (splitLines body) = sz
       \<and> (\<forall>l \<in> set (splitLines body). length l = sz \<and> set l \<subseteq> set '' .:-=+*#%@'')
       \<and> getAscii e (snd (getAscii e st k)) k = (Text200 body, st)
       \<and> (\<forall>e2 st2 k2 row2 others2.
             queryById st2 k2 = Inr (row2 # others2) \<and> row_palette row2 = row_palette row
             \<and> row_pixels row2 = row_pixels row \<longrightarrow>
             getAscii e2 st2 k2 = (Text200 body, st2))"
proof -
  note sh = validArtwork_shape [OF assms(4)]
  let ?lines = "map (map (\<lambda>p. chars ! specRampIndex (pal ! nat p))) pixels"
  have art: "asciiArt pal pixels = joinWith [newline] ?lines"
    by (rule asciiArt_valid [OF assms(4)])
  have ramp: "\<forall>l \<in> set ?lines. length l = sz \<and> set l \<subseteq> set chars"
  proof
    fix l assume "l \<in> set ?lines"
    then obtain r where r: "r \<in> set pixels"
      "l = map (\<lambda>p. chars ! specRampIndex (pal ! nat p)) r" by auto
    have "\<forall>p \<in> set r. chars ! specRampIndex (pal ! nat p) \<in> set chars"
      using sh(1,5) r(1) asciiChar_valid(2) by (metis nth_mem)
    then have "set l \<subseteq> set chars" using r(2) by auto
    moreover have "length l = sz" using sh(5) r by simp
    ultimately show "length l = sz \<and> set l \<subseteq> set chars" by blast
  qed
  have nonl: "\<forall>l \<in> set ?lines. CHR 0x0A \<notin> set l"
    using ramp newline_not_in_chars by (auto simp: newline_def)
  have ne: "?lines \<noteq> []" using sh(4) assms(5) by auto
  have split: "splitLines (asciiArt pal pixels) = ?lines"
    unfolding art using nonl ne by (rule splitLines_joinWith)
  have 1: "getAscii e st k = (Text200 (asciiArt pal pixels), st)"
    using assms(1,2,3) by (rule getAscii_valid)
  have 2: "length (splitLines (asciiArt pal pixels)) = sz" using split sh(4) by simp
  have 3: "\<forall>l \<in> set (splitLines (asciiArt pal pixels)).
             length l = sz \<and> set l \<subseteq> set '' .:-=+*#%@''"
    using ramp split by (simp add: chars_def)
  have 4: "getAscii e (snd (getAscii e st k)) k = (Text200 (asciiArt pal pixels), st)"
    using 1 by simp
  have 5: "\<forall>e2 st2 k2 row2 others2.
             queryById st2 k2 = Inr (row2 # others2) \<and> row_palette row2 = row_palette row
             \<and> row_pixels row2 = row_pixels row \<longrightarrow>
             getAscii e2 st2 k2 = (Text200 (asciiArt pal pixels), st2)"
    using assms(2,3) getAscii_valid by auto
  show ?thesis by (intro exI [of _ "asciiArt pal pixels"] conjI 1 2 3 4 5)
qed

theorem getAscii_lines_witness:
  "getAscii env0 [tinyRow] ''tiny'' = (Text200 ('' @'' @ [CHR 0x0A] @ ''@ ''), [tinyRow])
   \<and> splitLines ('' @'' @ [CHR 0x0A] @ ''@ '') = ['' @'', ''@ '']"
proof -
  have p: "row_palette tinyRow = map JStr [''#000000'', ''#FFFFFF'']"
    and g: "row_pixels tinyRow = [[0, 1], [1, 0]]"
    by (simp_all add: tinyRow_def)
  have pos: "0 < (2 :: nat)" by simp
  have ex: "getAscii env0 [tinyRow] ''tiny''
              = (Text200 ('' @'' @ [CHR 0x0A] @ ''@ ''), [tinyRow])"
    by (rule getAscii_example)
  have "\<exists>body. getAscii env0 [tinyRow] ''tiny'' = (Text200 body, [tinyRow])
          \<and> length (splitLines body) = 2"
    using getAscii_lines [OF tiny_query p g example_valid pos, of env0] by blast
  then show ?thesis using ex by simp
qed


section \<open>Properties of the SVG image\<close>

declare rectsRow.simps [simp del] rectsLoop.simps [simp del] showNat.simps [simp del]

lemma rectsRow_text:
  assumes "y < length pixels" "sz \<le> length (pixels ! y)"
  shows "rectsRow pal pixels sz scale y x rects =
           Inr (rects @ concat (map (\<lambda>x'. rectText (pixelRect pal scale y x' (Some (pixels ! y ! x'))))
                                  [x..<sz]))"
  using assms
proof (induction pal pixels sz scale y x rects rule: rectsRow.induct)
  case (1 pal pixels sz scale y x rects)
  show ?case
  proof (cases "x < sz")
    case True
    then have px: "pixelAt pixels y x = Inr (Some (pixels ! y ! x))"
      using "1.prems" by (intro pixelAt_inside) auto
    show ?thesis
      using True px "1.IH" [OF True px] "1.prems"
      by (subst rectsRow.simps) (simp add: upt_conv_Cons)
  next
    case False
    then show ?thesis by (subst rectsRow.simps) simp
  qed
qed

lemma rectsLoop_text:
  assumes "\<forall>y<sz. y < length pixels \<and> sz \<le> length (pixels ! y)"
  shows "rectsLoop pal pixels sz scale y rects =
           Inr (rects @ concat (map (\<lambda>y'. concat (map
                  (\<lambda>x'. rectText (pixelRect pal scale y' x' (Some (pixels ! y' ! x')))) [0..<sz]))
                [y..<sz]))"
  using assms
proof (induction pal pixels sz scale y rects rule: rectsLoop.induct)
  case (1 pal pixels sz scale y rects)
  show ?case
  proof (cases "y < sz")
    case True
    then have row: "rectsRow pal pixels sz scale y 0 rects =
           Inr (rects @ concat (map (\<lambda>x'. rectText (pixelRect pal scale y x' (Some (pixels ! y ! x'))))
                                  [0..<sz]))"
      using "1.prems" by (intro rectsRow_text) auto
    show ?thesis
      using True row "1.IH" [OF True row] "1.prems"
      by (subst rectsLoop.simps) (simp add: upt_conv_Cons)
  next
    case False
    then show ?thesis by (subst rectsLoop.simps) simp
  qed
qed

lemma concat_map_rows:
  "concat (map g (concat (map f ys))) = concat (map (\<lambda>y. concat (map g (f y))) ys)"
  by (induction ys) simp_all

lemma length_rows: "length (concat (map (\<lambda>y. map (g y) [0..<n]) [0..<m])) = m * n"
  by (induction m) simp_all

lemma nth_rows:
  assumes "y < m" "x < n"
  shows "concat (map (\<lambda>y. map (g y) [0..<n]) [0..<m]) ! (y * n + x) = g y x"
  using assms(1)
proof (induction m)
  case 0
  then show ?case by simp
next
  case (Suc m)
  show ?case
  proof (cases "y < m")
    case True
    then have "y * n + x < m * n"
    proof -
      have "y * n + x < y * n + n" using assms(2) by simp
      also have "\<dots> = Suc y * n" by simp
      also have "\<dots> \<le> m * n" using True by (intro mult_le_mono1) simp
      finally show ?thesis .
    qed
    then show ?thesis using Suc.IH [OF True] by (simp add: nth_append length_rows)
  next
    case False
    then have "y = m" using Suc.prems by simp
    then show ?thesis using assms(2) by (simp add: nth_append length_rows)
  qed
qed

lemma covers_axis:
  fixes s x p :: nat
  assumes "0 < s"
  shows "(x * s \<le> p \<and> p < x * s + s) \<longleftrightarrow> x = p div s"
proof
  assume "x * s \<le> p \<and> p < x * s + s"
  then have "s * x \<le> p" "p < s * Suc x" by (simp_all add: mult.commute)
  then have "p div s = x" by (rule div_nat_eqI)
  then show "x = p div s" by simp
next
  assume x: "x = p div s"
  have "p div s * s \<le> p" by simp
  moreover have "p < p div s * s + s" using assms
    by (metis add.commute dividend_less_div_times mult.commute)
  ultimately show "x * s \<le> p \<and> p < x * s + s" using x by simp
qed

lemma svgScale_pos: "0 < svgScale sz"
  by (simp add: svgScale_def)

lemma svgRects_length: "length (svgRects pal pixels sz) = sz * sz"
  by (simp add: svgRects_def length_rows)

lemma svgRects_nth:
  assumes "y < sz" "x < sz"
  shows "svgRects pal pixels sz ! (y * sz + x)
           = pixelRect pal (svgScale sz) y x (Some (pixels ! y ! x))"
  unfolding svgRects_def using assms by (rule nth_rows)

lemma svgImage_rects:
  assumes "\<forall>y<sz. y < length pixels \<and> sz \<le> length (pixels ! y)"
  shows "svgImage t a sz pal pixels =
           Inr (svgWrap (canvasText sz) (titleOf t) a
                  (concat (map rectText (svgRects pal pixels sz))))"
  by (simp add: svgImage_def rectsLoop_text [OF assms] svgRects_def concat_map_rows comp_def)

lemma covers_pixelRect:
  "covers (pixelRect pal (svgScale sz) y x i) (px, py)
     \<longleftrightarrow> x = px div svgScale sz \<and> y = py div svgScale sz"
proof -
  have a: "(x * svgScale sz \<le> px \<and> px < x * svgScale sz + svgScale sz)
             \<longleftrightarrow> x = px div svgScale sz"
    by (rule covers_axis [OF svgScale_pos])
  have b: "(y * svgScale sz \<le> py \<and> py < y * svgScale sz + svgScale sz)
             \<longleftrightarrow> y = py div svgScale sz"
    by (rule covers_axis [OF svgScale_pos])
  have "covers (pixelRect pal (svgScale sz) y x i) (px, py)
          \<longleftrightarrow> (x * svgScale sz \<le> px \<and> px < x * svgScale sz + svgScale sz)
            \<and> (y * svgScale sz \<le> py \<and> py < y * svgScale sz + svgScale sz)"
    by (simp add: covers_def pixelRect_def)
  then show ?thesis by (simp only: a b)
qed

lemma svgRects_tiling:
  assumes "px < canvasSize sz" "py < canvasSize sz"
  shows "\<exists>!i. i < sz * sz \<and> covers (svgRects pal pixels sz ! i) (px, py)"
proof -
  have sz: "0 < sz" using assms(1) by (cases sz) (simp_all add: canvasSize_def)
  let ?x = "px div svgScale sz" and ?y = "py div svgScale sz"
  have x: "?x < sz" and y: "?y < sz"
    using assms svgScale_pos [of sz]
    by (simp_all add: canvasSize_def less_mult_imp_div_less)
  have cov: "covers (svgRects pal pixels sz ! i) (px, py) \<longleftrightarrow> i = ?y * sz + ?x"
    if i: "i < sz * sz" for i
  proof -
    have d: "i div sz < sz" using i sz by (simp add: less_mult_imp_div_less)
    have m: "i mod sz < sz" using sz by simp
    have "svgRects pal pixels sz ! (i div sz * sz + i mod sz)
            = pixelRect pal (svgScale sz) (i div sz) (i mod sz)
                (Some (pixels ! (i div sz) ! (i mod sz)))"
      using d m by (rule svgRects_nth)
    then have "covers (svgRects pal pixels sz ! i) (px, py)
                 \<longleftrightarrow> i mod sz = ?x \<and> i div sz = ?y"
      by (simp add: covers_pixelRect)
    also have "\<dots> \<longleftrightarrow> i = ?y * sz + ?x"
    proof
      assume "i mod sz = ?x \<and> i div sz = ?y"
      then show "i = ?y * sz + ?x" by (metis div_mult_mod_eq)
    next
      assume "i = ?y * sz + ?x"
      then show "i mod sz = ?x \<and> i div sz = ?y" using x by simp
    qed
    finally show ?thesis .
  qed
  have in_range: "?y * sz + ?x < sz * sz"
  proof -
    have "?y * sz + ?x < ?y * sz + sz" using x by simp
    also have "\<dots> = Suc ?y * sz" by simp
    also have "\<dots> \<le> sz * sz" using y by (intro mult_le_mono1) simp
    finally show ?thesis .
  qed
  show ?thesis
  proof (rule ex1I [of _ "?y * sz + ?x"])
    show "?y * sz + ?x < sz * sz \<and> covers (svgRects pal pixels sz ! (?y * sz + ?x)) (px, py)"
      using in_range cov [OF in_range] by simp
  next
    fix i assume "i < sz * sz \<and> covers (svgRects pal pixels sz ! i) (px, py)"
    then show "i = ?y * sz + ?x" using cov by blast
  qed
qed

lemma svgRects_inside:
  assumes "i < sz * sz" "covers (svgRects pal pixels sz ! i) pt"
  shows "fst pt < canvasSize sz \<and> snd pt < canvasSize sz"
proof -
  have sz: "0 < sz" using assms(1) by (cases sz) simp_all
  have d: "i div sz < sz" using assms(1) sz by (simp add: less_mult_imp_div_less)
  have m: "i mod sz < sz" using sz by simp
  have "svgRects pal pixels sz ! (i div sz * sz + i mod sz)
          = pixelRect pal (svgScale sz) (i div sz) (i mod sz)
              (Some (pixels ! (i div sz) ! (i mod sz)))"
    using d m by (rule svgRects_nth)
  with assms(2) have c: "fst pt < i mod sz * svgScale sz + svgScale sz"
    "snd pt < i div sz * svgScale sz + svgScale sz"
    by (simp_all add: covers_def pixelRect_def)
  have "i mod sz * svgScale sz + svgScale sz = Suc (i mod sz) * svgScale sz" by simp
  also have "\<dots> \<le> sz * svgScale sz" using m by (intro mult_le_mono1) simp
  finally have 1: "i mod sz * svgScale sz + svgScale sz \<le> canvasSize sz"
    by (simp add: canvasSize_def)
  have "i div sz * svgScale sz + svgScale sz = Suc (i div sz) * svgScale sz" by simp
  also have "\<dots> \<le> sz * svgScale sz" using d by (intro mult_le_mono1) simp
  finally have 2: "i div sz * svgScale sz + svgScale sz \<le> canvasSize sz"
    by (simp add: canvasSize_def)
  from c 1 2 show ?thesis by simp
qed

lemma fillOf_valid:
  "0 \<le> k \<Longrightarrow> k < int (length pal) \<Longrightarrow> fillOf pal (Some k) = pal ! nat k"
  by (simp add: fillOf_def)

text \<open>The document for the two-colour 2\<times>2 artwork, by evaluation.\<close>

lemma svgImage_example:
  \<open>svgImage None ''ann'' 2 [''#000000'', ''#FFFFFF''] [[0, 1], [1, 0]] =
     Inr (''<?xml version="1.0" encoding="UTF-8"?>'' @ [newline]
       @ ''<svg xmlns="http://www.w3.org/2000/svg" width="512" height="512" viewBox="0 0 512 512">''
       @ [newline] @ ''  <title>Untitled by ann</title>'' @ [newline] @ ''  ''
       @ ''<rect x="0" y="0" width="256" height="256" fill="#000000"/>''
       @ ''<rect x="256" y="0" width="256" height="256" fill="#FFFFFF"/>''
       @ ''<rect x="0" y="256" width="256" height="256" fill="#FFFFFF"/>''
       @ ''<rect x="256" y="256" width="256" height="256" fill="#000000"/>''
       @ [newline] @ ''</svg>'')\<close>
  by code_simp

lemma digit_char: "d < 10 \<Longrightarrow> char_of (48 + d :: nat) \<in> set ''0123456789''"
proof -
  assume "d < 10"
  then have "d \<in> set [0..<10]" by simp
  moreover have "\<forall>d \<in> set [0..<10]. char_of (48 + d :: nat) \<in> set ''0123456789''"
    by code_simp
  ultimately show ?thesis by blast
qed

lemma digit_value: "d < 10 \<Longrightarrow> of_char (char_of (48 + d :: nat)) = (48 + d :: nat)"
  by (simp add: of_char_of)

lemma decimalValue_snoc:
  "decimalValue (ds @ [c]) = 10 * decimalValue ds + (of_char c - 48)"
  by (simp add: decimalValue_def)

lemma showNat_nonempty: "showNat n \<noteq> []"
  by (subst showNat.simps) simp

lemma showNat_digits: "set (showNat n) \<subseteq> set ''0123456789''"
proof (induction n rule: showNat.induct)
  case (1 n)
  show ?case
  proof (cases "n < 10")
    case True
    then show ?thesis using digit_char [OF True] by (subst showNat.simps) simp
  next
    case False
    have "n mod 10 < 10" by simp
    then have "char_of (48 + n mod 10) \<in> set ''0123456789''" by (rule digit_char)
    then show ?thesis using False "1.IH" [OF False] by (subst showNat.simps) simp
  qed
qed

lemma showNat_value: "decimalValue (showNat n) = n"
proof (induction n rule: showNat.induct)
  case (1 n)
  show ?case
  proof (cases "n < 10")
    case True
    then show ?thesis
      by (subst showNat.simps) (simp add: decimalValue_def of_char_of)
  next
    case False
    have "n mod 10 < 10" by simp
    then have "of_char (char_of (48 + n mod 10)) = (48 + n mod 10 :: nat)" by (rule digit_value)
    then show ?thesis using False "1.IH" [OF False]
      by (subst showNat.simps) (simp add: decimalValue_snoc)
  qed
qed

lemma showNat_leading: "n \<noteq> 0 \<Longrightarrow> hd (showNat n) \<noteq> CHR ''0''"
proof (induction n rule: showNat.induct)
  case (1 n)
  show ?case
  proof (cases "n < 10")
    case True
    have v: "of_char (char_of (48 + n)) = (48 + n :: nat)" using True by (rule digit_value)
    have "char_of (48 + n) \<noteq> CHR ''0''"
    proof
      assume eq: "char_of (48 + n) = CHR ''0''"
      from v have "of_char CHR ''0'' = (48 + n :: nat)" unfolding eq .
      then show False using "1.prems" by simp
    qed
    then show ?thesis using True by (subst showNat.simps) simp
  next
    case False
    then have "n div 10 \<noteq> 0" by simp
    then show ?thesis using False "1.IH" [OF False] showNat_nonempty [of "n div 10"]
      by (subst showNat.simps) simp
  qed
qed

lemma showNat_examples: "showNat 512 = ''512''" "showNat 16 = ''16''" "showNat 256 = ''256''" "showNat 0 = ''0''"
  by code_simp+

lemma rectText_fun:
  \<open>rectText = (\<lambda>r. ''<rect x="'' @ showNat (rect_x r) @ ''" y="'' @ showNat (rect_y r)
       @ ''" width="'' @ showNat (rect_width r) @ ''" height="'' @ showNat (rect_height r)
       @ ''" fill="'' @ rect_fill r @ ''"/>'')\<close>
  by (rule ext) (simp add: rectText_def)

lemma upt_four: "[0..<4] = [0, 1, 2, Suc 2]"
  by (simp add: upt_rec)

text \<open>
  C6. For a validated artwork of positive size, with \<open>scale = max 1 (512 div sz)\<close> and a
  canvas of side \<open>sz \<sqdot> scale\<close>, the document is the text below: the XML declaration,
  the \<^verbatim>\<open>svg\<close> element whose width, height and view box are the canvas side, the
  title, and the \<^verbatim>\<open>rect\<close> elements of a list of exactly \<open>sz\<^sup>2\<close> rectangles, in the
  order of the list. The rectangle of pixel \<open>(x, y)\<close> is the one at position
  \<open>y \<sqdot> sz + x\<close> (rows from the top, columns from the left), placed at
  \<open>(x \<sqdot> scale, y \<sqdot> scale)\<close> with width and height \<open>scale\<close> and filled with the pixel's
  palette colour; every point of the canvas lies in exactly one rectangle and no
  rectangle reaches outside the canvas. Numbers are printed as their decimal numerals,
  without leading zeros. For size 32 the scale is 16 and the canvas 512.
\<close>

theorem svgImage_tiles_canvas:
  assumes "validArtwork sz pal pixels" and "0 < sz"
  shows \<open>\<exists>rects.
      svgImage t a sz pal pixels =
        Inr (''<?xml version="1.0" encoding="UTF-8"?>'' @ [CHR 0x0A]
          @ ''<svg xmlns="http://www.w3.org/2000/svg" width="''
          @ showNat (sz * max 1 (512 div sz))
          @ ''" height="'' @ showNat (sz * max 1 (512 div sz))
          @ ''" viewBox="0 0 '' @ showNat (sz * max 1 (512 div sz))
          @ '' '' @ showNat (sz * max 1 (512 div sz)) @ ''">'' @ [CHR 0x0A]
          @ ''  <title>''
          @ (case t of None \<Rightarrow> ''Untitled'' | Some u \<Rightarrow> if u = [] then ''Untitled'' else u)
          @ '' by '' @ a @ ''</title>'' @ [CHR 0x0A] @ ''  ''
          @ concat (map (\<lambda>r. ''<rect x="'' @ showNat (rect_x r)
                @ ''" y="'' @ showNat (rect_y r)
                @ ''" width="'' @ showNat (rect_width r)
                @ ''" height="'' @ showNat (rect_height r)
                @ ''" fill="'' @ rect_fill r @ ''"/>'') rects)
          @ [CHR 0x0A] @ ''</svg>'')
    \<and> length rects = sz * sz
    \<and> (\<forall>y<sz. \<forall>x<sz. rects ! (y * sz + x) =
          \<lparr> rect_x = x * max 1 (512 div sz), rect_y = y * max 1 (512 div sz),
             rect_width = max 1 (512 div sz), rect_height = max 1 (512 div sz),
             rect_fill = pal ! nat (pixels ! y ! x) \<rparr>)
    \<and> (\<forall>px py. px < sz * max 1 (512 div sz) \<and> py < sz * max 1 (512 div sz) \<longrightarrow>
          (\<exists>!i. i < sz * sz \<and> covers (rects ! i) (px, py)))
    \<and> (\<forall>i pt. i < sz * sz \<and> covers (rects ! i) pt \<longrightarrow>
          fst pt < sz * max 1 (512 div sz) \<and> snd pt < sz * max 1 (512 div sz))
    \<and> (\<forall>n. showNat n \<noteq> [] \<and> set (showNat n) \<subseteq> set ''0123456789''
          \<and> decimalValue (showNat n) = n \<and> (n \<noteq> 0 \<longrightarrow> hd (showNat n) \<noteq> CHR ''0''))
    \<and> svgScale sz = max 1 (512 div sz) \<and> canvasSize sz = sz * max 1 (512 div sz)
    \<and> svgScale 32 = 16 \<and> canvasSize 32 = 512
    \<and> showNat (svgScale 32) = ''16'' \<and> showNat (canvasSize 32) = ''512''\<close>
proof -
  note sh = validArtwork_shape [OF assms(1)]
  let ?rects = "svgRects pal pixels sz"
  have sc: "svgScale sz = max 1 (512 div sz)" by (simp add: svgScale_def)
  have cv: "canvasSize sz = sz * max 1 (512 div sz)" by (simp add: canvasSize_def svgScale_def)
  have grid: "\<forall>y<sz. y < length pixels \<and> sz \<le> length (pixels ! y)"
    using sh(4,5) by simp
  have doc: "svgImage t a sz pal pixels =
           Inr (svgWrap (showNat (canvasSize sz)) (titleOf t) a
                  (concat (map rectText ?rects)))"
    using svgImage_rects [OF grid] assms(2) by (simp add: canvasText_def)
  have 1: \<open>svgImage t a sz pal pixels =
        Inr (''<?xml version="1.0" encoding="UTF-8"?>'' @ [CHR 0x0A]
          @ ''<svg xmlns="http://www.w3.org/2000/svg" width="''
          @ showNat (sz * max 1 (512 div sz))
          @ ''" height="'' @ showNat (sz * max 1 (512 div sz))
          @ ''" viewBox="0 0 '' @ showNat (sz * max 1 (512 div sz))
          @ '' '' @ showNat (sz * max 1 (512 div sz)) @ ''">'' @ [CHR 0x0A]
          @ ''  <title>''
          @ (case t of None \<Rightarrow> ''Untitled'' | Some u \<Rightarrow> if u = [] then ''Untitled'' else u)
          @ '' by '' @ a @ ''</title>'' @ [CHR 0x0A] @ ''  ''
          @ concat (map (\<lambda>r. ''<rect x="'' @ showNat (rect_x r)
                @ ''" y="'' @ showNat (rect_y r)
                @ ''" width="'' @ showNat (rect_width r)
                @ ''" height="'' @ showNat (rect_height r)
                @ ''" fill="'' @ rect_fill r @ ''"/>'') ?rects)
          @ [CHR 0x0A] @ ''</svg>'')\<close>
    unfolding doc cv rectText_fun svgWrap_def titleOf_def newline_def ..
  have 2: "length ?rects = sz * sz" by (rule svgRects_length)
  have 3: "\<forall>y<sz. \<forall>x<sz. ?rects ! (y * sz + x) =
          \<lparr> rect_x = x * max 1 (512 div sz), rect_y = y * max 1 (512 div sz),
             rect_width = max 1 (512 div sz), rect_height = max 1 (512 div sz),
             rect_fill = pal ! nat (pixels ! y ! x) \<rparr>"
  proof (intro allI impI)
    fix y x assume yx: "y < sz" "x < sz"
    then have "pixels ! y \<in> set pixels" using sh(4) by simp
    then have "0 \<le> pixels ! y ! x \<and> pixels ! y ! x < int (length pal)"
      using sh(5) yx by (metis nth_mem)
    then show "?rects ! (y * sz + x) =
          \<lparr> rect_x = x * max 1 (512 div sz), rect_y = y * max 1 (512 div sz),
             rect_width = max 1 (512 div sz), rect_height = max 1 (512 div sz),
             rect_fill = pal ! nat (pixels ! y ! x) \<rparr>"
      using svgRects_nth [OF yx] by (simp add: pixelRect_def fillOf_valid sc)
  qed
  have 4: "\<forall>px py. px < sz * max 1 (512 div sz) \<and> py < sz * max 1 (512 div sz) \<longrightarrow>
             (\<exists>!i. i < sz * sz \<and> covers (?rects ! i) (px, py))"
    using svgRects_tiling [of _ sz _ pal pixels] unfolding cv by blast
  have 5: "\<forall>i pt. i < sz * sz \<and> covers (?rects ! i) pt \<longrightarrow>
             fst pt < sz * max 1 (512 div sz) \<and> snd pt < sz * max 1 (512 div sz)"
    using svgRects_inside [of _ sz pal pixels] unfolding cv by blast
  have 6: "\<forall>n. showNat n \<noteq> [] \<and> set (showNat n) \<subseteq> set ''0123456789''
          \<and> decimalValue (showNat n) = n \<and> (n \<noteq> 0 \<longrightarrow> hd (showNat n) \<noteq> CHR ''0'')"
    using showNat_nonempty showNat_digits showNat_value showNat_leading by blast
  have 7: "svgScale 32 = 16" by (simp add: svgScale_def)
  have 8: "canvasSize 32 = 512" by (simp add: svgScale_def canvasSize_def)
  have 9: "showNat (svgScale 32) = ''16''" unfolding 7 by (rule showNat_examples)
  have 10: "showNat (canvasSize 32) = ''512''" unfolding 8 by (rule showNat_examples)
  show ?thesis by (intro exI [of _ ?rects] conjI 1 2 3 4 5 6 sc cv 7 8 9 10)
qed


theorem svgImage_tiles_canvas_witness:
  \<open>svgImage None ''ann'' 2 [''#000000'', ''#FFFFFF''] [[0, 1], [1, 0]] =
     Inr (''<?xml version="1.0" encoding="UTF-8"?>'' @ [CHR 0x0A]
       @ ''<svg xmlns="http://www.w3.org/2000/svg" width="512" height="512" viewBox="0 0 512 512">''
       @ [CHR 0x0A] @ ''  <title>Untitled by ann</title>'' @ [CHR 0x0A] @ ''  ''
       @ ''<rect x="0" y="0" width="256" height="256" fill="#000000"/>''
       @ ''<rect x="256" y="0" width="256" height="256" fill="#FFFFFF"/>''
       @ ''<rect x="0" y="256" width="256" height="256" fill="#FFFFFF"/>''
       @ ''<rect x="256" y="256" width="256" height="256" fill="#000000"/>''
       @ [CHR 0x0A] @ ''</svg>'')\<close>
proof -
  have two: "0 < (2 :: nat)" by simp
  obtain rects where
    doc: \<open>svgImage None ''ann'' 2 [''#000000'', ''#FFFFFF''] [[0, 1], [1, 0]] =
        Inr (''<?xml version="1.0" encoding="UTF-8"?>'' @ [CHR 0x0A]
          @ ''<svg xmlns="http://www.w3.org/2000/svg" width="''
          @ showNat (2 * max 1 (512 div 2))
          @ ''" height="'' @ showNat (2 * max 1 (512 div 2))
          @ ''" viewBox="0 0 '' @ showNat (2 * max 1 (512 div 2))
          @ '' '' @ showNat (2 * max 1 (512 div 2)) @ ''">'' @ [CHR 0x0A]
          @ ''  <title>''
          @ (case None of None \<Rightarrow> ''Untitled'' | Some u \<Rightarrow> if u = [] then ''Untitled'' else u)
          @ '' by '' @ ''ann'' @ ''</title>'' @ [CHR 0x0A] @ ''  ''
          @ concat (map (\<lambda>r. ''<rect x="'' @ showNat (rect_x r)
                @ ''" y="'' @ showNat (rect_y r)
                @ ''" width="'' @ showNat (rect_width r)
                @ ''" height="'' @ showNat (rect_height r)
                @ ''" fill="'' @ rect_fill r @ ''"/>'') rects)
          @ [CHR 0x0A] @ ''</svg>'')\<close>
    and len: "length rects = 2 * 2"
    and at: "\<forall>y<2. \<forall>x<2. rects ! (y * 2 + x) =
          \<lparr> rect_x = x * max 1 (512 div 2), rect_y = y * max 1 (512 div 2),
             rect_width = max 1 (512 div 2), rect_height = max 1 (512 div 2),
             rect_fill = [''#000000'', ''#FFFFFF''] ! nat ([[0, 1], [1, 0]] ! y ! x) \<rparr>"
    using svgImage_tiles_canvas [OF example_valid two, of None "''ann''"] by blast
  have 0: "rects ! 0 = \<lparr> rect_x = 0, rect_y = 0, rect_width = 256, rect_height = 256,
                          rect_fill = ''#000000'' \<rparr>"
    using at [rule_format, of 0 0] by simp
  have 1: "rects ! Suc 0 = \<lparr> rect_x = 256, rect_y = 0, rect_width = 256, rect_height = 256,
                          rect_fill = ''#FFFFFF'' \<rparr>"
    using at [rule_format, of 0 1] by simp
  have 2: "rects ! 2 = \<lparr> rect_x = 0, rect_y = 256, rect_width = 256, rect_height = 256,
                          rect_fill = ''#FFFFFF'' \<rparr>"
    using at [rule_format, of 1 0] by simp
  have 3: "rects ! 3 = \<lparr> rect_x = 256, rect_y = 256, rect_width = 256, rect_height = 256,
                          rect_fill = ''#000000'' \<rparr>"
    using at [rule_format, of 1 1] by simp
  have "map (\<lambda>i. rects ! i) [0..<4] = rects" using map_nth [of rects] len by simp
  then have r: "rects =
      [\<lparr> rect_x = 0, rect_y = 0, rect_width = 256, rect_height = 256,
          rect_fill = ''#000000'' \<rparr>,
       \<lparr> rect_x = 256, rect_y = 0, rect_width = 256, rect_height = 256,
          rect_fill = ''#FFFFFF'' \<rparr>,
       \<lparr> rect_x = 0, rect_y = 256, rect_width = 256, rect_height = 256,
          rect_fill = ''#FFFFFF'' \<rparr>,
       \<lparr> rect_x = 256, rect_y = 256, rect_width = 256, rect_height = 256,
          rect_fill = ''#000000'' \<rparr>]"
    unfolding upt_four by (simp add: 0 1 2 3)
  have n: "showNat 0 = ''0''" "showNat 256 = ''256''" "showNat 512 = ''512''"
    by (rule showNat_examples)+
  show ?thesis
    unfolding doc by (subst r) (simp add: n)
qed

end
